theory Spec2Isabelle
  imports Complex_Main
begin

chapter \<open>The audio player: options, events and playback methods\<close>

text \<open>
  A shallow embedding of \<open>src/audio-player.js\<close>: the module's pure functions
  (\<open>clampNumber\<close>, \<open>formatTime\<close>, \<open>formatRate\<close>), the options record with \<open>setOptions\<close> and
  \<open>_mergeOptions\<close>, the listener registry with \<open>on\<close>, \<open>off\<close> and \<open>emit\<close>, and the playback
  methods of the class \<open>AudioPlayer\<close>, each as a function on an explicit state that returns
  the new state or the exception thrown. The repository holds a second copy of the module
  (\<open>src/unnamed/part_000\<close>) with a list of rates in place of the rate bounds; where a claim
  turns on a difference between the two, both are modelled.
\<close>

section \<open>Numbers of the host language\<close>

text \<open>
  A JavaScript number is an IEEE 754 binary64 value. The model keeps the three special
  values apart and carries a finite value as the real number it denotes. Negative zero
  is not distinguished from zero: the program never divides by a variable and compares
  with \<open>===\<close>, \<open><\<close> and \<open>>\<close> only, which do not tell the two zeros apart.
\<close>

datatype jsnum = NaN | NegInf | PosInf | Fin real

fun isFinite :: "jsnum \<Rightarrow> bool" where
  "isFinite (Fin x) = True"
| "isFinite n = False"

text \<open>The relational operators: every comparison with \<open>NaN\<close> is false.\<close>

fun js_less :: "jsnum \<Rightarrow> jsnum \<Rightarrow> bool" where
  "js_less NaN b = False"
| "js_less a NaN = False"
| "js_less a NegInf = False"
| "js_less NegInf b = True"
| "js_less PosInf b = False"
| "js_less (Fin x) PosInf = True"
| "js_less (Fin x) (Fin y) = (x < y)"

definition js_greater :: "jsnum \<Rightarrow> jsnum \<Rightarrow> bool" where
  "js_greater a b = js_less b a"

text \<open>Strict equality \<open>===\<close> on numbers: \<open>NaN\<close> differs from itself.\<close>

definition js_eq :: "jsnum \<Rightarrow> jsnum \<Rightarrow> bool" where
  "js_eq a b = (a \<noteq> NaN \<and> b \<noteq> NaN \<and> a = b)"

text \<open>\<open>Math.min\<close> and \<open>Math.max\<close> of two arguments: \<open>NaN\<close> if either is.\<close>

definition Math_min :: "jsnum \<Rightarrow> jsnum \<Rightarrow> jsnum" where
  "Math_min a b = (if a = NaN \<or> b = NaN then NaN else if js_less b a then b else a)"

definition Math_max :: "jsnum \<Rightarrow> jsnum \<Rightarrow> jsnum" where
  "Math_max a b = (if a = NaN \<or> b = NaN then NaN else if js_less a b then b else a)"

subsection \<open>Rounding to binary64\<close>

text \<open>
  \<open>ilog2 x\<close> is the binary exponent of a positive real: \<open>2 ^ e \<le> x < 2 ^ (e + 1)\<close>.
\<close>

function ilog2 :: "real \<Rightarrow> int" where
  "ilog2 x = (if x \<le> 0 then 0
              else if 2 \<le> x then ilog2 (x / 2) + 1
              else if x < 1 then ilog2 (x * 2) - 1
              else 0)"
  by pat_completeness auto

definition ilog2_measure :: "real \<Rightarrow> nat" where
  "ilog2_measure x = (if 1 \<le> x then nat \<lfloor>log 2 x\<rfloor> else Suc (nat \<lceil>- log 2 x\<rceil>))"

lemma ilog2_measure_halve: "2 \<le> x \<Longrightarrow> ilog2_measure (x / 2) < ilog2_measure x"
proof -
  assume h: "2 \<le> x"
  have a: "log 2 (x / 2) = log 2 x - 1" using h by (simp add: log_divide)
  have "log 2 2 \<le> log 2 x" using h by (subst log_le_cancel_iff) auto
  hence b: "1 \<le> log 2 x" by simp
  have c: "\<lfloor>log 2 x - 1\<rfloor> = \<lfloor>log 2 x\<rfloor> - 1" by linarith
  have d: "1 \<le> \<lfloor>log 2 x\<rfloor>" using b by linarith
  have e: "ilog2_measure x = nat \<lfloor>log 2 x\<rfloor>" using h by (simp add: ilog2_measure_def)
  have f: "ilog2_measure (x / 2) = nat \<lfloor>log 2 (x / 2)\<rfloor>"
    using h by (simp add: ilog2_measure_def)
  show ?thesis unfolding e f a c using d by linarith
qed

lemma ilog2_measure_double:
  "0 < x \<Longrightarrow> x < 1 \<Longrightarrow> ilog2_measure (x * 2) < ilog2_measure x"
proof -
  assume h: "0 < x" "x < 1"
  have a: "log 2 (x * 2) = log 2 x + 1" using h by (simp add: log_mult)
  have b: "log 2 x < 0" using h by simp
  have e: "ilog2_measure x = Suc (nat \<lceil>- log 2 x\<rceil>)"
    using h by (simp add: ilog2_measure_def)
  show ?thesis
  proof (cases "1 \<le> x * 2")
    case True
    have "log 2 (x * 2) < 1" using a b by linarith
    hence "\<lfloor>log 2 (x * 2)\<rfloor> \<le> 0" by linarith
    moreover have "ilog2_measure (x * 2) = nat \<lfloor>log 2 (x * 2)\<rfloor>"
      using True by (simp add: ilog2_measure_def)
    ultimately show ?thesis unfolding e by linarith
  next
    case False
    have c: "\<lceil>- log 2 x - 1\<rceil> = \<lceil>- log 2 x\<rceil> - 1" by linarith
    have d: "1 \<le> \<lceil>- log 2 x\<rceil>" using b by linarith
    have f: "ilog2_measure (x * 2) = Suc (nat \<lceil>- log 2 x - 1\<rceil>)"
      using False a by (simp add: ilog2_measure_def)
    show ?thesis unfolding e f c using d by linarith
  qed
qed

termination ilog2
proof (relation "measure ilog2_measure")
  show "wf (measure ilog2_measure)" by simp
next
  fix x :: real assume "\<not> x \<le> 0" "2 \<le> x"
  thus "(x / 2, x) \<in> measure ilog2_measure" using ilog2_measure_halve by simp
next
  fix x :: real assume "\<not> x \<le> 0" "\<not> 2 \<le> x" "x < 1"
  thus "(x * 2, x) \<in> measure ilog2_measure" using ilog2_measure_double by simp
qed

declare ilog2.simps [simp del]

definition pow2 :: "int \<Rightarrow> real" where
  "pow2 k = (if 0 \<le> k then 2 ^ nat k else 1 / 2 ^ nat (- k))"

text \<open>Round to the nearest integer, ties to the even one (the IEEE default mode).\<close>

definition round_half_even :: "real \<Rightarrow> int" where
  "round_half_even y =
     (let f = \<lfloor>y\<rfloor>; d = y - of_int f
      in if d < 1 / 2 then f
         else if 1 / 2 < d then f + 1
         else if even f then f else f + 1)"

text \<open>
  \<open>fl x\<close> is the binary64 value nearest to the real \<open>x\<close>: 53 significant bits, exponents
  from \<open>-1022\<close> (below it the spacing stays \<open>2 ^ -1074\<close>), overflow to an infinity.
  Every arithmetic operation of the language returns \<open>fl\<close> of the exact result.
\<close>

definition fl :: "real \<Rightarrow> jsnum" where
  "fl x =
     (if x = 0 then Fin 0
      else let a = \<bar>x\<bar>;
               e = max (ilog2 a) (- 1022);
               u = pow2 (e - 52);
               r = of_int (round_half_even (a / u)) * u
           in if pow2 1024 \<le> r then (if x < 0 then NegInf else PosInf)
              else Fin (if x < 0 then - r else r))"

subsection \<open>Arithmetic\<close>

fun js_neg :: "jsnum \<Rightarrow> jsnum" where
  "js_neg NaN = NaN"
| "js_neg NegInf = PosInf"
| "js_neg PosInf = NegInf"
| "js_neg (Fin x) = Fin (- x)"

fun js_add :: "jsnum \<Rightarrow> jsnum \<Rightarrow> jsnum" where
  "js_add NaN b = NaN"
| "js_add a NaN = NaN"
| "js_add PosInf NegInf = NaN"
| "js_add NegInf PosInf = NaN"
| "js_add PosInf b = PosInf"
| "js_add NegInf b = NegInf"
| "js_add (Fin x) PosInf = PosInf"
| "js_add (Fin x) NegInf = NegInf"
| "js_add (Fin x) (Fin y) = fl (x + y)"

text \<open>
  Multiplication and division by a finite non-zero constant \<open>c\<close>: the only forms the
  program uses (\<open>* 100\<close>, \<open>/ 100\<close>, \<open>/ 60\<close>).
\<close>

fun js_mul_const :: "jsnum \<Rightarrow> real \<Rightarrow> jsnum" where
  "js_mul_const NaN c = NaN"
| "js_mul_const PosInf c = (if 0 < c then PosInf else NegInf)"
| "js_mul_const NegInf c = (if 0 < c then NegInf else PosInf)"
| "js_mul_const (Fin x) c = fl (x * c)"

fun js_div_const :: "jsnum \<Rightarrow> real \<Rightarrow> jsnum" where
  "js_div_const NaN c = NaN"
| "js_div_const PosInf c = (if 0 < c then PosInf else NegInf)"
| "js_div_const NegInf c = (if 0 < c then NegInf else PosInf)"
| "js_div_const (Fin x) c = fl (x / c)"

text \<open>
  The remainder \<open>a % c\<close> by a finite positive constant takes the sign of the dividend and
  is exact (no rounding).
\<close>

fun js_mod_const :: "jsnum \<Rightarrow> real \<Rightarrow> jsnum" where
  "js_mod_const (Fin x) c =
     Fin (if 0 \<le> x then x - c * of_int \<lfloor>x / c\<rfloor> else - (- x - c * of_int \<lfloor>- x / c\<rfloor>))"
| "js_mod_const a c = NaN"

fun Math_floor :: "jsnum \<Rightarrow> jsnum" where
  "Math_floor (Fin x) = Fin (of_int \<lfloor>x\<rfloor>)"
| "Math_floor a = a"

text \<open>\<open>Math.round\<close>: the nearest integer, a tie going up.\<close>

fun Math_round :: "jsnum \<Rightarrow> jsnum" where
  "Math_round (Fin x) = Fin (of_int \<lfloor>x + 1 / 2\<rfloor>)"
| "Math_round a = a"

section \<open>Values and strings\<close>

text \<open>
  The values a caller can hand to the player: the primitive values, functions (known by
  their identity) and plain objects (an association list of own data properties, inheriting
  from \<open>Object.prototype\<close>). Symbols, BigInts, arrays and accessor properties are outside the
  model. Strings are lists of 8-bit code units.
\<close>

datatype jsval =
    JUndefined
  | JNull
  | JBool bool
  | JNum jsnum
  | JStr string
  | JFun nat
  | JObj "(string \<times> jsval) list"

datatype error = TypeError | Thrown jsval

text \<open>Sequencing of calls that may throw: the first exception ends the method.\<close>

definition thn :: "error + 'a \<Rightarrow> ('a \<Rightarrow> error + 'b) \<Rightarrow> error + 'b" where
  "thn r f = (case r of Inl e \<Rightarrow> Inl e | Inr x \<Rightarrow> f x)"

text \<open>The primitive values: everything but functions and objects.\<close>

fun is_primitive :: "jsval \<Rightarrow> bool" where
  "is_primitive (JFun f) = False"
| "is_primitive (JObj kvs) = False"
| "is_primitive v = True"

text \<open>\<open>Boolean(v)\<close>.\<close>

fun to_boolean :: "jsval \<Rightarrow> bool" where
  "to_boolean JUndefined = False"
| "to_boolean JNull = False"
| "to_boolean (JBool b) = b"
| "to_boolean (JNum n) = (n \<noteq> NaN \<and> n \<noteq> Fin 0)"
| "to_boolean (JStr s) = (s \<noteq> [])"
| "to_boolean (JFun f) = True"
| "to_boolean (JObj kvs) = True"

text \<open>\<open>key in obj\<close> and \<open>obj.key\<close> on a plain object.\<close>

fun has_key :: "string \<Rightarrow> jsval \<Rightarrow> bool" where
  "has_key k (JObj kvs) = (k \<in> set (map fst kvs))"
| "has_key k v = False"

fun get_prop :: "jsval \<Rightarrow> string \<Rightarrow> jsval" where
  "get_prop (JObj kvs) k = (case map_of kvs k of None \<Rightarrow> JUndefined | Some v \<Rightarrow> v)"
| "get_prop v k = JUndefined"

text \<open>
  \<open>String.prototype.trim\<close> removes white space and line terminators from both ends; among
  the 8-bit code units these are tab, line feed, vertical tab, form feed, carriage return,
  space and the no-break space.
\<close>

definition is_space :: "char \<Rightarrow> bool" where
  "is_space c = (c \<in> set [CHR 0x09, CHR 0x0A, CHR 0x0B, CHR 0x0C, CHR 0x0D, CHR 0x20, CHR 0xA0])"

definition trim :: "string \<Rightarrow> string" where
  "trim s = rev (dropWhile is_space (rev (dropWhile is_space s)))"

text \<open>Decimal digits of a natural number.\<close>

fun dec :: "nat \<Rightarrow> string" where
  "dec n = (if n < 10 then [''0123456789'' ! n] else dec (n div 10) @ [''0123456789'' ! (n mod 10)])"

declare dec.simps [simp del]

definition padStart2 :: "string \<Rightarrow> string" where
  "padStart2 s = replicate (2 - length s) CHR ''0'' @ s"

section \<open>The options record and the event catalogue\<close>

record options =
  src :: string
  volume :: jsnum
  muted :: bool
  playbackRate :: jsnum
  playbackRateMin :: jsnum
  playbackRateMax :: jsnum
  playbackRateStep :: jsnum
  seekStep :: jsnum
  allowDownload :: bool
  showTime :: bool
  theme :: string
  downloadFilename :: "string option"
  ariaLabelPrefix :: string
  extras :: "(string \<times> jsval) list"

text \<open>A decimal literal of the source denotes the nearest binary64 value: \<open>0.2\<close> is \<open>fl (2 / 10)\<close>.\<close>

definition DEFAULT_OPTIONS :: options where
  "DEFAULT_OPTIONS = \<lparr>
     src = [],
     volume = Fin 100,
     muted = False,
     playbackRate = Fin 1,
     playbackRateMin = fl (2 / 10),
     playbackRateMax = Fin 2,
     playbackRateStep = fl (5 / 100),
     seekStep = Fin 10,
     allowDownload = True,
     showTime = True,
     theme = ''auto'',
     downloadFilename = None,
     ariaLabelPrefix = ''Audio player'',
     extras = [] \<rparr>"

definition EVENTS :: "string list" where
  "EVENTS = [''ready'', ''play'', ''pause'', ''ended'', ''timeupdate'', ''seek'',
             ''ratechange'', ''volumechange'', ''mutechange'', ''optionschange'',
             ''download'', ''error'', ''srcchange'']"

text \<open>The payload handed to the handlers of an event.\<close>

datatype payload =
    PNone
  | PReady jsnum string
  | PTime jsnum jsnum
  | PSeek jsnum jsnum
  | PRate jsnum
  | PVolume jsnum
  | PMuted bool
  | POptions "string list" options
  | PDownload string string
  | PError error
  | PSrc string
  | PValue jsval

text \<open>
  What the program takes from its host. \<open>str_to_num\<close> is the conversion of a string to a
  number and \<open>num_to_str\<close> the conversion of a number to a string where it is not a short
  decimal integer. \<open>run_handler\<close> is the behaviour of each function a caller registers as a
  handler (\<open>None\<close>: it returns, \<open>Some e\<close>: it throws \<open>e\<close>). \<open>call_method\<close> is what a function
  returns or throws when it is called without arguments as a method of an object, as the
  conversion of an object to a number calls \<open>valueOf\<close> and \<open>toString\<close>. \<open>fun_to_num\<close> is
  \<open>Number(f)\<close> of a function \<open>f\<close> (\<open>NaN\<close> through its source text, unless it carries
  conversion methods of its own). \<open>resolve_url\<close> resolves the \<open>src\<close> attribute of the media
  element against the address of the document. Theorems hold for every host. A function of
  the caller acts on the player through its result or its exception only: a handler or a
  conversion method that calls back into the player is outside the model.
\<close>

record host =
  str_to_num :: "string \<Rightarrow> jsnum"
  num_to_str :: "jsnum \<Rightarrow> string"
  run_handler :: "nat \<Rightarrow> payload \<Rightarrow> error option"
  call_method :: "nat \<Rightarrow> jsval \<Rightarrow> error + jsval"
  fun_to_num :: "nat \<Rightarrow> error + jsnum"
  resolve_url :: "string \<Rightarrow> string"

text \<open>The conversion of a primitive value to a number.\<close>

fun prim_to_number :: "host \<Rightarrow> jsval \<Rightarrow> jsnum" where
  "prim_to_number H JUndefined = NaN"
| "prim_to_number H JNull = Fin 0"
| "prim_to_number H (JBool b) = Fin (if b then 1 else 0)"
| "prim_to_number H (JNum n) = n"
| "prim_to_number H (JStr s) = str_to_num H s"
| "prim_to_number H v = NaN"

text \<open>
  One step of the conversion of an object to a primitive: the method \<open>name\<close> is looked up
  and, when it is callable, called on the object. \<open>Some p\<close> is a primitive result; \<open>None\<close>
  says that the method is not callable or returned an object, so that the conversion goes
  on. \<open>inherited\<close> is the outcome of the method of \<open>Object.prototype\<close>, used when the object
  has no property of that name of its own.
\<close>

definition own_method :: "host \<Rightarrow> jsval \<Rightarrow> string \<Rightarrow> jsval option \<Rightarrow> error + jsval option" where
  "own_method H obj name inherited =
     (if \<not> has_key name obj then Inr inherited
      else (case get_prop obj name of
              JFun f \<Rightarrow> thn (call_method H f obj)
                          (\<lambda>r. Inr (if is_primitive r then Some r else None))
            | _ \<Rightarrow> Inr None))"

text \<open>
  The conversion of a plain object with the hint \<open>number\<close>: \<open>valueOf\<close> first (the inherited
  one returns the object itself), then \<open>toString\<close> (the inherited one returns
  \<open>"[object Object]"\<close>); a \<open>TypeError\<close> when neither gives a primitive.
\<close>

definition to_primitive :: "host \<Rightarrow> jsval \<Rightarrow> error + jsval" where
  "to_primitive H obj =
     thn (own_method H obj ''valueOf'' None) (\<lambda>r1.
       case r1 of
         Some p \<Rightarrow> Inr p
       | None \<Rightarrow>
           thn (own_method H obj ''toString'' (Some (JStr ''[object Object]''))) (\<lambda>r2.
             case r2 of
               Some p \<Rightarrow> Inr p
             | None \<Rightarrow> Inl TypeError))"

text \<open>\<open>Number(v)\<close>, also the conversion that \<open>Math.min\<close> applies to its arguments.\<close>

fun to_number :: "host \<Rightarrow> jsval \<Rightarrow> error + jsnum" where
  "to_number H (JFun f) = fun_to_num H f"
| "to_number H (JObj kvs) = thn (to_primitive H (JObj kvs)) (\<lambda>p. Inr (prim_to_number H p))"
| "to_number H v = Inr (prim_to_number H v)"

text \<open>
  \<open>String(n)\<close>: the digits of an integer below \<open>2 ^ 53\<close> in absolute value, the host's shortest
  round-trip digits otherwise.
\<close>

fun num_to_string :: "host \<Rightarrow> jsnum \<Rightarrow> string" where
  "num_to_string H NaN = ''NaN''"
| "num_to_string H PosInf = ''Infinity''"
| "num_to_string H NegInf = ''-Infinity''"
| "num_to_string H (Fin x) =
     (if of_int \<lfloor>x\<rfloor> = x \<and> \<bar>x\<bar> < 2 ^ 53
      then (if x < 0 then ''-'' @ dec (nat \<lfloor>- x\<rfloor>) else dec (nat \<lfloor>x\<rfloor>))
      else num_to_str H (Fin x))"

text \<open>
  \<open>n.toFixed(2)\<close>: the integer nearest to \<open>100 * x\<close> (a tie going up), written with two
  digits after the point.
\<close>

definition fixed2 :: "real \<Rightarrow> string" where
  "fixed2 x =
     (let m = dec (nat \<lfloor>x * 100 + 1 / 2\<rfloor>);
          m' = (if length m \<le> 2 then replicate (3 - length m) CHR ''0'' @ m else m)
      in take (length m' - 2) m' @ ''.'' @ drop (length m' - 2) m')"

fun toFixed2 :: "host \<Rightarrow> jsnum \<Rightarrow> string" where
  "toFixed2 H NaN = ''NaN''"
| "toFixed2 H PosInf = ''Infinity''"
| "toFixed2 H NegInf = ''-Infinity''"
| "toFixed2 H (Fin x) =
     (if 10 ^ 21 \<le> \<bar>x\<bar> then num_to_str H (Fin x)
      else if x < 0 then ''-'' @ fixed2 (- x) else fixed2 x)"

section \<open>The pure functions of the module\<close>

text \<open>\<open>clampNumber\<close>: \<open>None\<close> is the \<open>null\<close> it returns; the conversion of the value may throw.\<close>

definition clampNumber :: "host \<Rightarrow> jsval \<Rightarrow> jsnum \<Rightarrow> jsnum \<Rightarrow> error + jsnum option" where
  "clampNumber H v lo hi =
     thn (to_number H v) (\<lambda>num.
       if \<not> isFinite num then Inr None else Inr (Some (Math_min hi (Math_max lo num))))"

definition formatTime :: "host \<Rightarrow> jsnum \<Rightarrow> string" where
  "formatTime H seconds =
     (if \<not> isFinite seconds \<or> js_less seconds (Fin 0) then ''0:00''
      else let mins = Math_floor (js_div_const seconds 60);
               secs = Math_floor (js_mod_const seconds 60)
           in num_to_string H mins @ '':'' @ padStart2 (num_to_string H secs))"

definition formatRate :: "host \<Rightarrow> jsnum \<Rightarrow> string" where
  "formatRate H rate =
     (if \<not> isFinite rate then ''1x''
      else let rounded = js_div_const (Math_round (js_mul_const rate 100)) 100;
               text = toFixed2 H rounded
           in text @ ''x'')"

text \<open>
  The second copy of the module (\<open>src/unnamed/part_000\<close>) strips the trailing zeros of the
  text: \<open>text.replace(/\.?0+$/, "")\<close> removes the final run of zeros, and the point before it
  when there is one.
\<close>

definition strip_zeros :: "string \<Rightarrow> string" where
  "strip_zeros t =
     (let r = rev t; rest = dropWhile (\<lambda>c. c = CHR ''0'') r
      in if rest = r then t
         else (case rest of
                 c # rest' \<Rightarrow> if c = CHR ''.'' then rev rest' else rev rest
               | [] \<Rightarrow> []))"

definition formatRate_stripped :: "host \<Rightarrow> jsnum \<Rightarrow> string" where
  "formatRate_stripped H rate =
     (if \<not> isFinite rate then ''1x''
      else let rounded = js_div_const (Math_round (js_mul_const rate 100)) 100;
               text = strip_zeros (toFixed2 H rounded)
           in text @ ''x'')"

text \<open>
  A host for running examples. The examples convert no numeral string to a number and print
  short integers only, so they never reach its two conversions of strings. Its function \<open>0\<close>
  throws, as a handler and as a method; its function \<open>2\<close> returns \<open>50\<close> as a method; every
  other function returns \<open>undefined\<close>. The document is at \<open>http://localhost/\<close>: a source that
  does not start with \<open>http://\<close> resolves to that address followed by the source.
\<close>

definition sample_host :: host where
  "sample_host = \<lparr>
     str_to_num = (\<lambda>s. NaN),
     num_to_str = (\<lambda>n. ''?''),
     run_handler = (\<lambda>f p. if f = 0 then Some (Thrown (JStr ''boom'')) else None),
     call_method = (\<lambda>f this. if f = 0 then Inl (Thrown (JStr ''boom''))
                               else if f = 2 then Inr (JNum (Fin 50))
                               else Inr JUndefined),
     fun_to_num = (\<lambda>f. Inr NaN),
     resolve_url = (\<lambda>u. if take 7 u = ''http://'' then u else ''http://localhost/'' @ u) \<rparr>"

section \<open>The formatting examples\<close>

text \<open>The literal \<open>1.005\<close> is the binary64 value just below the decimal one.\<close>

lemma ilog2_lit_1005: "ilog2 \<bar>201 / 200\<bar> = 0"
  by (simp add: ilog2.simps)

lemma fl_lit_1005: "fl (201 / 200) = Fin (1131529406376837 / 1125899906842624)"
  unfolding fl_def Let_def ilog2_lit_1005
  by (simp add: pow2_def round_half_even_def Let_def)

lemma ilog2_1005_times_100: "ilog2 \<bar>1131529406376837 / 1125899906842624 * 100\<bar> = 6"
  by (simp add: ilog2.simps)

text \<open>Its product with \<open>100\<close> rounds to a value below \<open>100.5\<close>.\<close>

lemma fl_1005_times_100:
  "fl (1131529406376837 / 1125899906842624 * 100) = Fin (7072058789855231 / 70368744177664)"
  unfolding fl_def Let_def ilog2_1005_times_100
  by (simp add: pow2_def round_half_even_def Let_def)

lemma ilog2_one: "ilog2 \<bar>1\<bar> = 0"
  by (simp add: ilog2.simps)

lemma fl_one: "fl 1 = Fin 1"
  unfolding fl_def Let_def ilog2_one
  by (simp add: pow2_def round_half_even_def Let_def)

lemma dec_100: "dec 100 = ''100''"
  by (simp add: dec.simps)

lemma ilog2_65_by_60: "ilog2 \<bar>13 / 12\<bar> = 0"
  by (simp add: ilog2.simps)

lemma fl_65_by_60: "fl (13 / 12) = Fin (4878899596318037 / 4503599627370496)"
  unfolding fl_def Let_def ilog2_65_by_60
  by (simp add: pow2_def round_half_even_def Let_def)

lemma formatTime_65: "formatTime H (Fin 65) = ''1:05''"
  by (simp add: formatTime_def fl_65_by_60 dec.simps padStart2_def)

lemma formatTime_negative: "formatTime H (Fin (- 1)) = ''0:00''"
  by (simp add: formatTime_def)

lemma formatRate_1005: "formatRate H (fl (1005 / 1000)) = ''1.00x''"
  using fl_1005_times_100
  by (simp add: formatRate_def fl_lit_1005 fl_one fixed2_def dec_100)

lemma formatRate_stripped_1005: "formatRate_stripped H (fl (1005 / 1000)) = ''1x''"
  using fl_1005_times_100
  by (simp add: formatRate_stripped_def fl_lit_1005 fl_one fixed2_def dec_100 strip_zeros_def)

text \<open>
  Claim C9, as the code has it. \<open>formatTime(65)\<close> is \<open>"1:05"\<close> and \<open>formatTime(-1)\<close> is
  \<open>"0:00"\<close>. \<open>formatRate(1.005)\<close> rounds the rate to \<open>1\<close> (the product \<open>1.005 * 100\<close> is below
  \<open>100.5\<close> in binary64) and renders it with two decimals: \<open>"1.00x"\<close> in
  \<open>src/audio-player.js\<close>, which keeps the zeros of \<open>toFixed(2)\<close>, and \<open>"1x"\<close> only in the copy
  that strips them.
\<close>

theorem C9_format_examples:
  "formatTime H (Fin 65) = ''1:05'' \<and>
   formatTime H (Fin (- 1)) = ''0:00'' \<and>
   formatRate H (fl (1005 / 1000)) = ''1.00x'' \<and>
   formatRate_stripped H (fl (1005 / 1000)) = ''1x''"
  using formatTime_65 formatTime_negative formatRate_1005 formatRate_stripped_1005
  by blast

theorem C9_format_examples_witness:
  "formatTime sample_host (Fin 65) = ''1:05'' \<and>
   formatTime sample_host (Fin (- 1)) = ''0:00'' \<and>
   formatRate sample_host (fl (1005 / 1000)) = ''1.00x'' \<and>
   formatRate_stripped sample_host (fl (1005 / 1000)) = ''1x''"
  by (rule C9_format_examples [of sample_host])

text \<open>
  Claim C9 as stated fails on \<open>src/audio-player.js\<close>: \<open>formatRate(1.005)\<close> is not \<open>"1x"\<close>.
\<close>

theorem C9_formatRate_counterexample:
  "formatRate sample_host (fl (1005 / 1000)) \<noteq> ''1x''"
  unfolding formatRate_1005 by simp

section \<open>The player\<close>

text \<open>
  The media element and the control surface are the player's collaborators. Both are
  passive records here: reading a property returns the value last written, and a method
  call is recorded in \<open>a_calls\<close> (\<open>pause()\<close> and \<open>play()\<close> also flip \<open>paused\<close>, as the element does
  at once). What the element does later on its own (decoding, its notifications, the
  outcome of the promise of \<open>play()\<close>) is not part of a method call of the player.

  The source of the media element is the exception. \<open>a_src\<close> is its \<open>src\<close> attribute, which
  an assignment to the property \<open>src\<close> writes and \<open>getAttribute("src")\<close> reads; it is empty
  while the element has none (the player assigns an empty source in \<open>destroy\<close> only, and
  never reads the element afterwards). Reading the property \<open>src\<close> does not return the
  attribute: it returns the address the attribute resolves to, \<open>audio_src\<close> below.
\<close>

datatype media_call = MLoad | MPlay | MPause

record media =
  a_src :: string
  a_currentTime :: jsnum
  a_duration :: jsnum
  a_volume :: jsnum
  a_muted :: bool
  a_playbackRate :: jsnum
  a_paused :: bool
  a_calls :: "media_call list"

definition audio_src :: "host \<Rightarrow> media \<Rightarrow> string" where
  "audio_src H a = (if a_src a = [] then [] else resolve_url H (a_src a))"

record surface =
  d_attached :: bool
  d_root_theme :: string
  d_root_label :: string
  d_root_muted :: bool
  d_root_playing :: bool
  d_title_text :: string
  d_title_hidden :: bool
  d_playBtn_label :: string
  d_rewindBtn_label :: string
  d_rewindBtn_num :: string
  d_forwardBtn_label :: string
  d_forwardBtn_num :: string
  d_rateSlider_min :: string
  d_rateSlider_max :: string
  d_rateSlider_step :: string
  d_rateSlider_value :: string
  d_rateValue_text :: string
  d_ratePopoverValue_text :: string
  d_muteBtn_label :: string
  d_volumeSlider_value :: string
  d_volumeValue_text :: string
  d_downloadBtn_disabled :: bool
  d_downloadBtn_hidden :: bool
  d_timeRow_hidden :: bool
  d_currentTime_text :: string
  d_duration_text :: string
  d_progressRange_value :: string
  d_progressRange_max :: string

record meta =
  m_title :: string
  m_filename :: "string option"
  m_allowDownload :: "bool option"

text \<open>
  The state of one player. \<open>events\<close> is the \<open>Map\<close> from names to \<open>Set\<close>s of handlers; a \<open>Set\<close>
  is a list in insertion order. \<open>element\<close> and \<open>controls\<close> are the media element and the control
  surface; \<open>audio_ref\<close> and \<open>dom_ref\<close> say whether \<open>this._audio\<close> and \<open>this._dom\<close> still refer to
  them (\<open>destroy\<close> sets both to \<open>null\<close>). \<open>listeners\<close> are the bound listeners, as (target, event)
  pairs. Three fields observe the run and are not read by the program: \<open>trace\<close> lists the calls of
  \<open>emit\<close>, \<open>calls\<close> the handler invocations, \<open>console\<close> the errors written to the console.
\<close>

record player =
  opts :: options
  meta :: meta
  events :: "jsval \<Rightarrow> jsval list option"
  listeners :: "(string \<times> string) list"
  destroyed :: bool
  rafId :: "nat option"
  audio_ref :: bool
  element :: media
  dom_ref :: bool
  controls :: surface
  trace :: "(jsval \<times> payload) list"
  calls :: "(jsval \<times> payload) list"
  console :: "error list"

subsection \<open>The listener registry\<close>

fun is_function :: "jsval \<Rightarrow> bool" where
  "is_function (JFun f) = True"
| "is_function v = False"

text \<open>\<open>Set.prototype.add\<close>: an element already in the set is not added again.\<close>

definition set_add :: "jsval \<Rightarrow> jsval list \<Rightarrow> jsval list" where
  "set_add h hs = (if h \<in> set hs then hs else hs @ [h])"

definition set_delete :: "jsval \<Rightarrow> jsval list \<Rightarrow> jsval list" where
  "set_delete h hs = removeAll h hs"

definition on :: "jsval \<Rightarrow> jsval \<Rightarrow> player \<Rightarrow> player" where
  "on name handler s =
     (if name \<notin> set (map JStr EVENTS) \<or> \<not> is_function handler then s
      else let ev = (if events s name = None then (events s)(name \<mapsto> []) else events s)
           in (case ev name of
                 None \<Rightarrow> s
               | Some hs \<Rightarrow> s\<lparr>events := ev(name \<mapsto> set_add handler hs)\<rparr>))"

definition off :: "jsval \<Rightarrow> jsval \<Rightarrow> player \<Rightarrow> player" where
  "off name handler s =
     (case events s name of
        None \<Rightarrow> s
      | Some hs \<Rightarrow> s\<lparr>events := (events s)(name \<mapsto> set_delete handler hs)\<rparr>)"

text \<open>
  Calling a handler: a function behaves as the host says, anything else is not callable.
\<close>

fun invoke :: "host \<Rightarrow> jsval \<Rightarrow> payload \<Rightarrow> error option" where
  "invoke H (JFun f) p = run_handler H f p"
| "invoke H v p = Some TypeError"

text \<open>The body of the \<open>try\<close> block of \<open>emit\<close>: the call of one handler, which may throw.\<close>

definition try_handler :: "host \<Rightarrow> payload \<Rightarrow> jsval \<Rightarrow> player \<Rightarrow> error + player" where
  "try_handler H p h s =
     (case invoke H h p of
        None \<Rightarrow> Inr (s\<lparr>calls := calls s @ [(h, p)]\<rparr>)
      | Some e \<Rightarrow> Inl e)"

text \<open>The \<open>try\<close>/\<open>catch\<close> around it: a thrown error is written to the console.\<close>

definition call_handler :: "host \<Rightarrow> payload \<Rightarrow> player \<Rightarrow> jsval \<Rightarrow> player" where
  "call_handler H p s h =
     (case try_handler H p h s of
        Inr s' \<Rightarrow> s'
      | Inl e \<Rightarrow> s\<lparr>calls := calls s @ [(h, p)], console := console s @ [e]\<rparr>)"

definition emit :: "host \<Rightarrow> jsval \<Rightarrow> payload \<Rightarrow> player \<Rightarrow> error + player" where
  "emit H name p s =
     (let s0 = s\<lparr>trace := trace s @ [(name, p)]\<rparr>
      in case events s0 name of
           None \<Rightarrow> Inr s0
         | Some hs \<Rightarrow> if hs = [] then Inr s0 else Inr (foldl (call_handler H p) s0 hs))"

definition handlers_of :: "player \<Rightarrow> jsval \<Rightarrow> jsval list" where
  "handlers_of s name = (case events s name of None \<Rightarrow> [] | Some hs \<Rightarrow> hs)"

text \<open>A \<open>Set\<close> holds no element twice: the representation invariant of the registry.\<close>

definition sets_wf :: "player \<Rightarrow> bool" where
  "sets_wf s = (\<forall>name. distinct (handlers_of s name))"

text \<open>The registry maps catalogued event names to function handlers only.\<close>

definition registry_ok :: "player \<Rightarrow> bool" where
  "registry_ok s =
     (\<forall>name. (events s name \<noteq> None \<longrightarrow> name \<in> set (map JStr EVENTS)) \<and>
             list_all is_function (handlers_of s name))"

subsection \<open>Facts about the registry\<close>

lemma set_add_idem: "set_add h (set_add h hs) = set_add h hs"
  by (simp add: set_add_def)

lemma distinct_set_add: "distinct hs \<Longrightarrow> distinct (set_add h hs)"
  by (simp add: set_add_def)

lemma count_distinct: "distinct hs \<Longrightarrow> h \<in> set hs \<Longrightarrow> count_list hs h = 1"
  by (induction hs) auto

lemma count_set_add: "distinct hs \<Longrightarrow> count_list (set_add h hs) h = 1"
  by (cases "h \<in> set hs") (simp_all add: set_add_def count_distinct)

lemma on_idem: "on name handler (on name handler s) = on name handler s"
  by (simp add: on_def Let_def set_add_idem split: option.splits)

lemma handlers_of_on:
  "name \<in> set (map JStr EVENTS) \<Longrightarrow> is_function handler \<Longrightarrow>
   handlers_of (on name handler s) name = set_add handler (handlers_of s name)"
  by (auto simp: on_def handlers_of_def Let_def split: option.splits)

lemma handlers_of_on_other:
  "name' \<noteq> name \<Longrightarrow> handlers_of (on name handler s) name' = handlers_of s name'"
  by (auto simp: on_def handlers_of_def Let_def split: option.splits)

lemma calls_on: "calls (on name handler s) = calls s"
  by (simp add: on_def Let_def split: option.splits)

lemma sets_wf_on: "sets_wf s \<Longrightarrow> sets_wf (on name handler s)"
proof -
  assume wf: "sets_wf s"
  show ?thesis
  proof (cases "name \<in> set (map JStr EVENTS) \<and> is_function handler")
    case True
    have "distinct (handlers_of (on name handler s) n)" for n
    proof (cases "n = name")
      case True
      with \<open>name \<in> set (map JStr EVENTS) \<and> is_function handler\<close> wf show ?thesis
        by (simp add: handlers_of_on distinct_set_add sets_wf_def)
    next
      case False
      with wf show ?thesis by (simp add: handlers_of_on_other sets_wf_def)
    qed
    then show ?thesis by (simp add: sets_wf_def)
  next
    case False
    then have "on name handler s = s" by (auto simp: on_def)
    with wf show ?thesis by simp
  qed
qed

lemma calls_foldl_call_handler:
  "calls (foldl (call_handler H p) s hs) = calls s @ map (\<lambda>h. (h, p)) hs"
  by (induction hs arbitrary: s)
     (auto simp: call_handler_def try_handler_def split: option.splits)

lemma console_foldl_call_handler:
  "console (foldl (call_handler H p) s hs) =
   console s @ List.map_filter (\<lambda>h. invoke H h p) hs"
  by (induction hs arbitrary: s)
     (auto simp: call_handler_def try_handler_def List.map_filter_simps split: option.splits)

lemma emit_returns:
  "emit H name p s =
   Inr (foldl (call_handler H p) (s\<lparr>trace := trace s @ [(name, p)]\<rparr>) (handlers_of s name))"
  by (simp add: emit_def handlers_of_def Let_def split: option.splits)

lemma count_list_map_pair: "count_list (map (\<lambda>h. (h, p)) hs) (h, p) = count_list hs h"
  by (induction hs) auto

text \<open>
  Claim C8. Whatever the handlers registered for an event do, \<open>emit\<close> returns normally; each
  of them has been called once, in order, with the payload, also those after one that throws;
  and what the throwing ones threw is on the console.
\<close>

theorem C8_emit_isolates_handlers:
  "\<exists>s'. emit H name p s = Inr s' \<and>
        calls s' = calls s @ map (\<lambda>h. (h, p)) (handlers_of s name) \<and>
        console s' = console s @ List.map_filter (\<lambda>h. invoke H h p) (handlers_of s name)"
  by (simp add: emit_returns calls_foldl_call_handler console_foldl_call_handler)

text \<open>
  Claim C7. Registering the same handler for the same event a second time leaves the state
  as the first registration left it, for every name and handler. For a catalogued name and
  a function, emitting the event afterwards calls the handlers registered for it, among
  which the handler occurs exactly once.
\<close>

theorem C7_on_idempotent:
  "on name h (on name h s) = on name h s \<and>
   (name \<in> set (map JStr EVENTS) \<and> is_function h \<and> sets_wf s \<longrightarrow>
      (\<exists>s'. emit H name p (on name h (on name h s)) = Inr s' \<and>
            calls s' = calls s @ map (\<lambda>h'. (h', p)) (handlers_of (on name h s) name) \<and>
            count_list (handlers_of (on name h s) name) h = 1))"
proof (intro conjI impI)
  show "on name h (on name h s) = on name h s" by (rule on_idem)
next
  assume a: "name \<in> set (map JStr EVENTS) \<and> is_function h \<and> sets_wf s"
  have hs: "handlers_of (on name h s) name = set_add h (handlers_of s name)"
    using a by (simp add: handlers_of_on)
  have d: "distinct (handlers_of s name)" using a by (simp add: sets_wf_def)
  have c: "count_list (handlers_of (on name h s) name) h = 1"
    unfolding hs using d by (rule count_set_add)
  show "\<exists>s'. emit H name p (on name h (on name h s)) = Inr s' \<and>
            calls s' = calls s @ map (\<lambda>h'. (h', p)) (handlers_of (on name h s) name) \<and>
            count_list (handlers_of (on name h s) name) h = 1"
    using c by (simp add: on_idem emit_returns calls_foldl_call_handler calls_on)
qed

section \<open>Options: sanitising and merging\<close>

fun is_object :: "jsval \<Rightarrow> bool" where
  "is_object (JObj kvs) = True"
| "is_object v = False"

text \<open>
  \<open>typeof v === "string" && v.trim() ? v.trim() : d\<close>, used for the theme and the label
  prefix, and with \<open>null\<close> for the download file name.
\<close>

definition text_or :: "jsval \<Rightarrow> string \<Rightarrow> string" where
  "text_or v d = (case v of JStr t \<Rightarrow> if trim t \<noteq> [] then trim t else d | _ \<Rightarrow> d)"

definition text_or_null :: "jsval \<Rightarrow> string option" where
  "text_or_null v = (case v of JStr t \<Rightarrow> if trim t \<noteq> [] then Some (trim t) else None | _ \<Rightarrow> None)"

definition string_or_empty :: "jsval \<Rightarrow> string" where
  "string_or_empty v = (case v of JStr t \<Rightarrow> t | _ \<Rightarrow> [])"

subsection \<open>The field updates of \<open>setOptions\<close>, in the order of the source\<close>

text \<open>
  The numeric keys go through \<open>clampNumber\<close>, whose conversion of the value may throw; the
  exception then leaves \<open>setOptions\<close> before anything is stored.
\<close>

definition upd_volume :: "host \<Rightarrow> jsval \<Rightarrow> options \<Rightarrow> error + options" where
  "upd_volume H p n =
     (if has_key ''volume'' p
      then thn (clampNumber H (get_prop p ''volume'') (Fin 0) (Fin 100)) (\<lambda>r.
             Inr (case r of
                    None \<Rightarrow> n
                  | Some v \<Rightarrow> if \<not> js_eq v (volume n) then n\<lparr>volume := v\<rparr> else n))
      else Inr n)"

definition upd_muted :: "jsval \<Rightarrow> options \<Rightarrow> options" where
  "upd_muted p n =
     (if has_key ''muted'' p
      then (let b = to_boolean (get_prop p ''muted'')
            in if b \<noteq> muted n then n\<lparr>muted := b\<rparr> else n)
      else n)"

definition upd_playbackRate :: "host \<Rightarrow> jsval \<Rightarrow> options \<Rightarrow> error + options" where
  "upd_playbackRate H p n =
     (if has_key ''playbackRate'' p
      then thn (clampNumber H (get_prop p ''playbackRate'')
                  (playbackRateMin n) (playbackRateMax n)) (\<lambda>r.
             Inr (case r of
                    None \<Rightarrow> n
                  | Some v \<Rightarrow> if \<not> js_eq v (playbackRate n) then n\<lparr>playbackRate := v\<rparr> else n))
      else Inr n)"

definition upd_seekStep :: "host \<Rightarrow> jsval \<Rightarrow> options \<Rightarrow> error + options" where
  "upd_seekStep H p n =
     (if has_key ''seekStep'' p
      then thn (clampNumber H (get_prop p ''seekStep'') (Fin 1) (Fin 120)) (\<lambda>r.
             Inr (case r of
                    None \<Rightarrow> n
                  | Some v \<Rightarrow> if \<not> js_eq v (seekStep n) then n\<lparr>seekStep := v\<rparr> else n))
      else Inr n)"

definition upd_allowDownload :: "jsval \<Rightarrow> options \<Rightarrow> options" where
  "upd_allowDownload p n =
     (if has_key ''allowDownload'' p
      then (let b = to_boolean (get_prop p ''allowDownload'')
            in if b \<noteq> allowDownload n then n\<lparr>allowDownload := b\<rparr> else n)
      else n)"

definition upd_playbackRateMin :: "host \<Rightarrow> jsval \<Rightarrow> options \<Rightarrow> error + options" where
  "upd_playbackRateMin H p n =
     (if has_key ''playbackRateMin'' p
      then thn (clampNumber H (get_prop p ''playbackRateMin'') (fl (2 / 10)) (Fin 4)) (\<lambda>r.
             Inr (case r of
                    None \<Rightarrow> n
                  | Some v \<Rightarrow> if \<not> js_eq v (playbackRateMin n)
                              then n\<lparr>playbackRateMin := v\<rparr> else n))
      else Inr n)"

definition upd_playbackRateMax :: "host \<Rightarrow> jsval \<Rightarrow> options \<Rightarrow> error + options" where
  "upd_playbackRateMax H p n =
     (if has_key ''playbackRateMax'' p
      then thn (clampNumber H (get_prop p ''playbackRateMax'') (fl (2 / 10)) (Fin 4)) (\<lambda>r.
             Inr (case r of
                    None \<Rightarrow> n
                  | Some v \<Rightarrow> if \<not> js_eq v (playbackRateMax n)
                              then n\<lparr>playbackRateMax := v\<rparr> else n))
      else Inr n)"

definition upd_playbackRateStep :: "host \<Rightarrow> jsval \<Rightarrow> options \<Rightarrow> error + options" where
  "upd_playbackRateStep H p n =
     (if has_key ''playbackRateStep'' p
      then thn (clampNumber H (get_prop p ''playbackRateStep'') (fl (1 / 100)) (Fin 1)) (\<lambda>r.
             Inr (case r of
                    None \<Rightarrow> n
                  | Some v \<Rightarrow> if \<not> js_eq v (playbackRateStep n)
                              then n\<lparr>playbackRateStep := v\<rparr> else n))
      else Inr n)"

text \<open>The record once the numeric keys of the update have been applied, before the swap.\<close>

definition fields_before_swap :: "host \<Rightarrow> jsval \<Rightarrow> options \<Rightarrow> error + options" where
  "fields_before_swap H p n0 =
     thn (upd_volume H p n0) (\<lambda>n.
     thn (upd_playbackRate H p (upd_muted p n)) (\<lambda>n.
     thn (upd_seekStep H p n) (\<lambda>n.
     thn (upd_playbackRateMin H p (upd_allowDownload p n)) (\<lambda>n.
     thn (upd_playbackRateMax H p n) (\<lambda>n.
     upd_playbackRateStep H p n)))))"

definition swap_bounds :: "options \<Rightarrow> options" where
  "swap_bounds n =
     (if js_greater (playbackRateMin n) (playbackRateMax n)
      then (let temp = playbackRateMin n
            in n\<lparr>playbackRateMin := playbackRateMax n, playbackRateMax := temp\<rparr>)
      else n)"

definition reclamp_rate :: "host \<Rightarrow> options \<Rightarrow> error + options" where
  "reclamp_rate H n =
     thn (clampNumber H (JNum (playbackRate n)) (playbackRateMin n) (playbackRateMax n)) (\<lambda>r.
       Inr (case r of
              None \<Rightarrow> n
            | Some v \<Rightarrow> if \<not> js_eq v (playbackRate n) then n\<lparr>playbackRate := v\<rparr> else n))"

definition upd_showTime :: "jsval \<Rightarrow> options \<Rightarrow> options" where
  "upd_showTime p n =
     (if has_key ''showTime'' p
      then (let b = to_boolean (get_prop p ''showTime'')
            in if b \<noteq> showTime n then n\<lparr>showTime := b\<rparr> else n)
      else n)"

definition upd_theme :: "jsval \<Rightarrow> options \<Rightarrow> options" where
  "upd_theme p n =
     (if has_key ''theme'' p
      then (let t = text_or (get_prop p ''theme'') (theme DEFAULT_OPTIONS)
            in if t \<noteq> theme n then n\<lparr>theme := t\<rparr> else n)
      else n)"

definition upd_downloadFilename :: "jsval \<Rightarrow> options \<Rightarrow> options" where
  "upd_downloadFilename p n =
     (if has_key ''downloadFilename'' p
      then (let f = text_or_null (get_prop p ''downloadFilename'')
            in if f \<noteq> downloadFilename n then n\<lparr>downloadFilename := f\<rparr> else n)
      else n)"

definition upd_ariaLabelPrefix :: "jsval \<Rightarrow> options \<Rightarrow> options" where
  "upd_ariaLabelPrefix p n =
     (if has_key ''ariaLabelPrefix'' p
      then (let a = text_or (get_prop p ''ariaLabelPrefix'') (ariaLabelPrefix DEFAULT_OPTIONS)
            in if a \<noteq> ariaLabelPrefix n then n\<lparr>ariaLabelPrefix := a\<rparr> else n)
      else n)"

definition upd_src :: "jsval \<Rightarrow> options \<Rightarrow> options" where
  "upd_src p n =
     (if has_key ''src'' p
      then (let t = string_or_empty (get_prop p ''src'')
            in if t \<noteq> src n then n\<lparr>src := t\<rparr> else n)
      else n)"

definition fields_after_swap :: "jsval \<Rightarrow> options \<Rightarrow> options" where
  "fields_after_swap p n =
     upd_src p
       (upd_ariaLabelPrefix p
         (upd_downloadFilename p
           (upd_theme p
             (upd_showTime p n))))"

text \<open>The record \<open>next\<close> that \<open>setOptions\<close> stores as \<open>this._options\<close>.\<close>

definition next_options :: "host \<Rightarrow> jsval \<Rightarrow> options \<Rightarrow> error + options" where
  "next_options H p cur =
     thn (fields_before_swap H p cur) (\<lambda>n.
     thn (reclamp_rate H (swap_bounds n)) (\<lambda>n.
     Inr (fields_after_swap p n)))"

subsection \<open>\<open>_mergeOptions\<close>\<close>

definition KNOWN_KEYS :: "string list" where
  "KNOWN_KEYS = [''src'', ''volume'', ''muted'', ''playbackRate'', ''playbackRateMin'',
                 ''playbackRateMax'', ''playbackRateStep'', ''seekStep'', ''allowDownload'',
                 ''showTime'', ''theme'', ''downloadFilename'', ''ariaLabelPrefix'']"

text \<open>An options record as the object the program holds: its own properties.\<close>

definition raw_options :: "options \<Rightarrow> (string \<times> jsval) list" where
  "raw_options b =
     [(''src'', JStr (src b)),
      (''volume'', JNum (volume b)),
      (''muted'', JBool (muted b)),
      (''playbackRate'', JNum (playbackRate b)),
      (''playbackRateMin'', JNum (playbackRateMin b)),
      (''playbackRateMax'', JNum (playbackRateMax b)),
      (''playbackRateStep'', JNum (playbackRateStep b)),
      (''seekStep'', JNum (seekStep b)),
      (''allowDownload'', JBool (allowDownload b)),
      (''showTime'', JBool (showTime b)),
      (''theme'', JStr (theme b)),
      (''downloadFilename'', (case downloadFilename b of None \<Rightarrow> JNull | Some f \<Rightarrow> JStr f)),
      (''ariaLabelPrefix'', JStr (ariaLabelPrefix b))] @ extras b"

text \<open>
  \<open>Object.keys(override || {})\<close> with the values: the own properties of an object, the
  indexed characters of a string, nothing for any other value.
\<close>

fun own_entries :: "jsval \<Rightarrow> (string \<times> jsval) list" where
  "own_entries (JObj kvs) = kvs"
| "own_entries (JStr t) = zip (map dec [0..<length t]) (map (\<lambda>c. JStr [c]) t)"
| "own_entries v = []"

definition merged_object :: "options \<Rightarrow> jsval \<Rightarrow> bool \<Rightarrow> jsval" where
  "merged_object base override includeUnknown =
     JObj (filter (\<lambda>(k, v). includeUnknown \<or> k \<in> set (map fst (raw_options base)))
             (own_entries override)
           @ raw_options base)"

text \<open>\<open>r ?? d\<close> for \<open>r\<close> the result of \<open>clampNumber\<close>, whose \<open>null\<close> is \<open>None\<close>.\<close>

definition or_else :: "'a option \<Rightarrow> 'a \<Rightarrow> 'a" where
  "or_else r d = (case r of None \<Rightarrow> d | Some v \<Rightarrow> v)"

text \<open>
  The numeric fields are converted in the order of the source: volume, the two bounds, the
  step, then (after the swap) the rate and the seek step.
\<close>

definition mergeOptions :: "host \<Rightarrow> options \<Rightarrow> jsval \<Rightarrow> bool \<Rightarrow> error + options" where
  "mergeOptions H base override includeUnknown =
     (let merged = merged_object base override includeUnknown
      in thn (clampNumber H (get_prop merged ''volume'') (Fin 0) (Fin 100)) (\<lambda>vol.
         thn (clampNumber H (get_prop merged ''playbackRateMin'') (fl (2 / 10)) (Fin 4)) (\<lambda>mn.
         thn (clampNumber H (get_prop merged ''playbackRateMax'') (fl (2 / 10)) (Fin 4)) (\<lambda>mx.
         thn (clampNumber H (get_prop merged ''playbackRateStep'') (fl (1 / 100)) (Fin 1)) (\<lambda>stp.
         let min' = or_else mn (playbackRateMin base);
             max' = or_else mx (playbackRateMax base);
             lo = (if js_greater min' max' then max' else min');
             hi = (if js_greater min' max' then min' else max')
         in thn (clampNumber H (get_prop merged ''playbackRate'') lo hi) (\<lambda>rate.
            thn (clampNumber H (get_prop merged ''seekStep'') (Fin 1) (Fin 120)) (\<lambda>sk.
            Inr \<lparr> src = string_or_empty (get_prop merged ''src''),
                  volume = or_else vol (volume base),
                  muted = to_boolean (get_prop merged ''muted''),
                  playbackRate = or_else rate (Fin 1),
                  playbackRateMin = lo,
                  playbackRateMax = hi,
                  playbackRateStep = or_else stp (playbackRateStep base),
                  seekStep = or_else sk (seekStep base),
                  allowDownload = to_boolean (get_prop merged ''allowDownload''),
                  showTime = to_boolean (get_prop merged ''showTime''),
                  theme = text_or (get_prop merged ''theme'') (theme base),
                  downloadFilename = text_or_null (get_prop merged ''downloadFilename''),
                  ariaLabelPrefix =
                    text_or (get_prop merged ''ariaLabelPrefix'') (ariaLabelPrefix base),
                  extras = filter (\<lambda>(k, v). k \<notin> set KNOWN_KEYS)
                             (case merged of JObj kvs \<Rightarrow> kvs | _ \<Rightarrow> []) \<rparr>)))))))"

text \<open>
  The constructor stores the merge of the defaults with the caller's options (unknown keys
  kept) and passes that record through \<open>setOptions\<close> once.
\<close>

definition constructed_options :: "host \<Rightarrow> jsval \<Rightarrow> error + options" where
  "constructed_options H override =
     thn (mergeOptions H DEFAULT_OPTIONS override True) (\<lambda>m.
     next_options H (JObj (raw_options m)) m)"

section \<open>The domain of the options record\<close>

text \<open>
  \<open>fin_le a b\<close>: both numbers are finite and \<open>a \<le> b\<close>; \<open>in_range lo hi n\<close>: the three are finite
  and \<open>n\<close> lies in the closed interval. \<open>bounds_ok\<close> is the declared domain of the numeric
  fields; \<open>opts_ok\<close> adds that the rate bounds are ordered and hold the rate.
\<close>

fun fin_le :: "jsnum \<Rightarrow> jsnum \<Rightarrow> bool" where
  "fin_le (Fin x) (Fin y) = (x \<le> y)"
| "fin_le a b = False"

definition in_range :: "jsnum \<Rightarrow> jsnum \<Rightarrow> jsnum \<Rightarrow> bool" where
  "in_range lo hi n = (fin_le lo n \<and> fin_le n hi)"

definition bounds_ok :: "options \<Rightarrow> bool" where
  "bounds_ok n =
     (in_range (Fin 0) (Fin 100) (volume n) \<and>
      in_range (fl (2 / 10)) (Fin 4) (playbackRateMin n) \<and>
      in_range (fl (2 / 10)) (Fin 4) (playbackRateMax n) \<and>
      in_range (fl (1 / 100)) (Fin 1) (playbackRateStep n) \<and>
      in_range (Fin 1) (Fin 120) (seekStep n) \<and>
      isFinite (playbackRate n))"

definition opts_ok :: "options \<Rightarrow> bool" where
  "opts_ok n =
     (bounds_ok n \<and>
      fin_le (playbackRateMin n) (playbackRateMax n) \<and>
      in_range (playbackRateMin n) (playbackRateMax n) (playbackRate n))"

lemma thn_Inr: "thn r f = Inr y \<longleftrightarrow> (\<exists>x. r = Inr x \<and> f x = Inr y)"
  by (cases r) (simp_all add: thn_def)

lemma thn_Inl: "thn r f = Inl e \<longleftrightarrow> r = Inl e \<or> (\<exists>x. r = Inr x \<and> f x = Inl e)"
  by (cases r) (simp_all add: thn_def)

lemma thn_simps: "thn (Inr x) f = f x" "thn (Inl e) f = Inl e"
  by (simp_all add: thn_def)

lemma ilog2_fifth: "ilog2 \<bar>1 / 5\<bar> = - 3"
  by (simp add: ilog2.simps)

lemma fl_fifth: "fl (1 / 5) = Fin (3602879701896397 / 18014398509481984)"
  unfolding fl_def Let_def ilog2_fifth
  by (simp add: pow2_def round_half_even_def Let_def)

lemma ilog2_twentieth: "ilog2 \<bar>1 / 20\<bar> = - 5"
  by (simp add: ilog2.simps)

lemma fl_twentieth: "fl (1 / 20) = Fin (3602879701896397 / 72057594037927936)"
  unfolding fl_def Let_def ilog2_twentieth
  by (simp add: pow2_def round_half_even_def Let_def)

lemma ilog2_hundredth: "ilog2 \<bar>1 / 100\<bar> = - 7"
  by (simp add: ilog2.simps)

lemma fl_hundredth: "fl (1 / 100) = Fin (5764607523034235 / 576460752303423488)"
  unfolding fl_def Let_def ilog2_hundredth
  by (simp add: pow2_def round_half_even_def Let_def)

subsection \<open>Conversion and clamping\<close>

lemma to_number_primitive: "is_primitive v \<Longrightarrow> to_number H v = Inr (prim_to_number H v)"
  by (cases v) simp_all

lemma to_number_num: "to_number H (JNum n) = Inr n"
  by simp

lemma clampNumber_Inr:
  "clampNumber H v lo hi = Inr r \<longleftrightarrow>
   (\<exists>num. to_number H v = Inr num \<and>
          r = (if isFinite num then Some (Math_min hi (Math_max lo num)) else None))"
  by (cases "to_number H v") (auto simp: clampNumber_def thn_def)

lemma clampNumber_Inl: "clampNumber H v lo hi = Inl e \<longleftrightarrow> to_number H v = Inl e"
  by (cases "to_number H v") (auto simp: clampNumber_def thn_def)

lemma clampNumber_Some:
  "clampNumber H v lo hi = Inr (Some c) \<longleftrightarrow>
   (\<exists>x. to_number H v = Inr (Fin x) \<and> c = Math_min hi (Math_max lo (Fin x)))"
proof
  assume "clampNumber H v lo hi = Inr (Some c)"
  then obtain num where n: "to_number H v = Inr num"
    and c: "Some c = (if isFinite num then Some (Math_min hi (Math_max lo num)) else None)"
    unfolding clampNumber_Inr by blast
  from c obtain x where "num = Fin x" by (cases num) auto
  with n c show "\<exists>x. to_number H v = Inr (Fin x) \<and> c = Math_min hi (Math_max lo (Fin x))"
    by auto
next
  assume "\<exists>x. to_number H v = Inr (Fin x) \<and> c = Math_min hi (Math_max lo (Fin x))"
  then show "clampNumber H v lo hi = Inr (Some c)" by (auto simp: clampNumber_Inr)
qed

lemma clampNumber_None:
  "clampNumber H v lo hi = Inr None \<longleftrightarrow> (\<exists>num. to_number H v = Inr num \<and> \<not> isFinite num)"
  by (auto simp: clampNumber_Inr)

lemma clampNumber_num:
  "clampNumber H (JNum n) lo hi =
   Inr (if isFinite n then Some (Math_min hi (Math_max lo n)) else None)"
  by (simp add: clampNumber_def thn_def)

lemma clamp_in_range:
  "fin_le lo hi \<Longrightarrow> in_range lo hi (Math_min hi (Math_max lo (Fin x)))"
  by (cases lo; cases hi) (auto simp: in_range_def Math_min_def Math_max_def)

lemma clamp_finite:
  "isFinite lo \<Longrightarrow> isFinite hi \<Longrightarrow> isFinite (Math_min hi (Math_max lo (Fin x)))"
  by (cases lo; cases hi) (auto simp: Math_min_def Math_max_def)

lemma clampNumber_in_range:
  "fin_le lo hi \<Longrightarrow> clampNumber H v lo hi = Inr (Some c) \<Longrightarrow> in_range lo hi c"
  by (auto simp: clampNumber_Some clamp_in_range)

lemma clampNumber_finite:
  "isFinite lo \<Longrightarrow> isFinite hi \<Longrightarrow> clampNumber H v lo hi = Inr (Some c) \<Longrightarrow> isFinite c"
  by (auto simp: clampNumber_Some clamp_finite)

lemma in_range_finite: "in_range lo hi n \<Longrightarrow> isFinite n"
  by (cases n; cases lo) (auto simp: in_range_def)

subsection \<open>The numeric fields through \<open>setOptions\<close>\<close>

text \<open>
  An update of a numeric key returns the record as it was or with the clamped value in the
  field, when the conversion does not throw.
\<close>

lemma upd_numeric_Inr:
  assumes "(if k then thn c (\<lambda>r. Inr (case r of
                                         None \<Rightarrow> n
                                       | Some v \<Rightarrow> if \<not> js_eq v old then f v else n))
            else Inr n) = Inr n'"
  shows "n' = n \<or> (\<exists>v. c = Inr (Some v) \<and> n' = f v)"
proof (cases k)
  case False
  with assms show ?thesis by simp
next
  case True
  with assms obtain r where r: "c = Inr r"
    and n': "n' = (case r of None \<Rightarrow> n | Some v \<Rightarrow> if \<not> js_eq v old then f v else n)"
    by (auto simp: thn_Inr)
  show ?thesis
  proof (cases r)
    case None
    with n' show ?thesis by simp
  next
    case (Some v)
    with n' r show ?thesis by (cases "js_eq v old") simp_all
  qed
qed

lemma upd_volume_Inr:
  "upd_volume H p n = Inr n' \<Longrightarrow>
   n' = n \<or> (\<exists>v. clampNumber H (get_prop p ''volume'') (Fin 0) (Fin 100) = Inr (Some v) \<and>
                  n' = n\<lparr>volume := v\<rparr>)"
  unfolding upd_volume_def by (rule upd_numeric_Inr)

lemma upd_playbackRate_Inr:
  "upd_playbackRate H p n = Inr n' \<Longrightarrow>
   n' = n \<or> (\<exists>v. clampNumber H (get_prop p ''playbackRate'')
                     (playbackRateMin n) (playbackRateMax n) = Inr (Some v) \<and>
                  n' = n\<lparr>playbackRate := v\<rparr>)"
  unfolding upd_playbackRate_def by (rule upd_numeric_Inr)

lemma upd_seekStep_Inr:
  "upd_seekStep H p n = Inr n' \<Longrightarrow>
   n' = n \<or> (\<exists>v. clampNumber H (get_prop p ''seekStep'') (Fin 1) (Fin 120) = Inr (Some v) \<and>
                  n' = n\<lparr>seekStep := v\<rparr>)"
  unfolding upd_seekStep_def by (rule upd_numeric_Inr)

lemma upd_playbackRateMin_Inr:
  "upd_playbackRateMin H p n = Inr n' \<Longrightarrow>
   n' = n \<or> (\<exists>v. clampNumber H (get_prop p ''playbackRateMin'') (fl (2 / 10)) (Fin 4)
                     = Inr (Some v) \<and>
                  n' = n\<lparr>playbackRateMin := v\<rparr>)"
  unfolding upd_playbackRateMin_def by (rule upd_numeric_Inr)

lemma upd_playbackRateMax_Inr:
  "upd_playbackRateMax H p n = Inr n' \<Longrightarrow>
   n' = n \<or> (\<exists>v. clampNumber H (get_prop p ''playbackRateMax'') (fl (2 / 10)) (Fin 4)
                     = Inr (Some v) \<and>
                  n' = n\<lparr>playbackRateMax := v\<rparr>)"
  unfolding upd_playbackRateMax_def by (rule upd_numeric_Inr)

lemma upd_playbackRateStep_Inr:
  "upd_playbackRateStep H p n = Inr n' \<Longrightarrow>
   n' = n \<or> (\<exists>v. clampNumber H (get_prop p ''playbackRateStep'') (fl (1 / 100)) (Fin 1)
                     = Inr (Some v) \<and>
                  n' = n\<lparr>playbackRateStep := v\<rparr>)"
  unfolding upd_playbackRateStep_def by (rule upd_numeric_Inr)

lemma bounds_upd_volume:
  assumes "bounds_ok n" and "upd_volume H p n = Inr n'"
  shows "bounds_ok n'"
  using upd_volume_Inr [OF assms(2)] assms(1)
  by (auto simp: bounds_ok_def dest: clampNumber_in_range [rotated])

lemma bounds_upd_muted: "bounds_ok n \<Longrightarrow> bounds_ok (upd_muted p n)"
  by (auto simp: upd_muted_def bounds_ok_def Let_def)

lemma bounds_upd_playbackRate:
  assumes "bounds_ok n" and "upd_playbackRate H p n = Inr n'"
  shows "bounds_ok n'"
proof -
  from upd_playbackRate_Inr [OF assms(2)] consider
    (same) "n' = n" |
    (upd) v where "clampNumber H (get_prop p ''playbackRate'')
                     (playbackRateMin n) (playbackRateMax n) = Inr (Some v)"
                  "n' = n\<lparr>playbackRate := v\<rparr>"
    by blast
  then show ?thesis
  proof cases
    case same
    with assms(1) show ?thesis by simp
  next
    case upd
    have "isFinite (playbackRateMin n)" "isFinite (playbackRateMax n)"
      using assms(1) by (auto simp: bounds_ok_def dest: in_range_finite)
    hence "isFinite v" using upd(1) by (rule clampNumber_finite)
    thus ?thesis using assms(1) upd(2) by (simp add: bounds_ok_def)
  qed
qed

lemma bounds_upd_seekStep:
  assumes "bounds_ok n" and "upd_seekStep H p n = Inr n'"
  shows "bounds_ok n'"
  using upd_seekStep_Inr [OF assms(2)] assms(1)
  by (auto simp: bounds_ok_def dest: clampNumber_in_range [rotated])

lemma bounds_upd_allowDownload: "bounds_ok n \<Longrightarrow> bounds_ok (upd_allowDownload p n)"
  by (auto simp: upd_allowDownload_def bounds_ok_def Let_def)

lemma bounds_upd_playbackRateMin:
  assumes "bounds_ok n" and "upd_playbackRateMin H p n = Inr n'"
  shows "bounds_ok n'"
  using upd_playbackRateMin_Inr [OF assms(2)] assms(1)
  by (auto simp: bounds_ok_def fl_fifth dest: clampNumber_in_range [rotated])

lemma bounds_upd_playbackRateMax:
  assumes "bounds_ok n" and "upd_playbackRateMax H p n = Inr n'"
  shows "bounds_ok n'"
  using upd_playbackRateMax_Inr [OF assms(2)] assms(1)
  by (auto simp: bounds_ok_def fl_fifth dest: clampNumber_in_range [rotated])

lemma bounds_upd_playbackRateStep:
  assumes "bounds_ok n" and "upd_playbackRateStep H p n = Inr n'"
  shows "bounds_ok n'"
  using upd_playbackRateStep_Inr [OF assms(2)] assms(1)
  by (auto simp: bounds_ok_def fl_hundredth dest: clampNumber_in_range [rotated])

text \<open>The steps of \<open>fields_before_swap\<close>, when it returns.\<close>

lemma fields_before_swap_Inr:
  assumes "fields_before_swap H p n = Inr n'"
  obtains n1 n2 n3 n4 n5 where
    "upd_volume H p n = Inr n1"
    "upd_playbackRate H p (upd_muted p n1) = Inr n2"
    "upd_seekStep H p n2 = Inr n3"
    "upd_playbackRateMin H p (upd_allowDownload p n3) = Inr n4"
    "upd_playbackRateMax H p n4 = Inr n5"
    "upd_playbackRateStep H p n5 = Inr n'"
  using assms unfolding fields_before_swap_def thn_Inr by blast

lemma bounds_fields_before_swap:
  assumes "bounds_ok n" and "fields_before_swap H p n = Inr n'"
  shows "bounds_ok n'"
proof -
  from assms(2) obtain n1 n2 n3 n4 n5 where
    s: "upd_volume H p n = Inr n1"
       "upd_playbackRate H p (upd_muted p n1) = Inr n2"
       "upd_seekStep H p n2 = Inr n3"
       "upd_playbackRateMin H p (upd_allowDownload p n3) = Inr n4"
       "upd_playbackRateMax H p n4 = Inr n5"
       "upd_playbackRateStep H p n5 = Inr n'"
    by (rule fields_before_swap_Inr)
  have "bounds_ok n1" using assms(1) s(1) by (rule bounds_upd_volume)
  hence "bounds_ok (upd_muted p n1)" by (rule bounds_upd_muted)
  hence "bounds_ok n2" using s(2) by (rule bounds_upd_playbackRate)
  hence "bounds_ok n3" using s(3) by (rule bounds_upd_seekStep)
  hence "bounds_ok (upd_allowDownload p n3)" by (rule bounds_upd_allowDownload)
  hence "bounds_ok n4" using s(4) by (rule bounds_upd_playbackRateMin)
  hence "bounds_ok n5" using s(5) by (rule bounds_upd_playbackRateMax)
  thus ?thesis using s(6) by (rule bounds_upd_playbackRateStep)
qed

lemma swap_bounds_ordered:
  "isFinite (playbackRateMin n) \<Longrightarrow> isFinite (playbackRateMax n) \<Longrightarrow>
   fin_le (playbackRateMin (swap_bounds n)) (playbackRateMax (swap_bounds n))"
  by (cases "playbackRateMin n"; cases "playbackRateMax n")
     (auto simp: swap_bounds_def js_greater_def Let_def)

lemma bounds_swap_bounds: "bounds_ok n \<Longrightarrow> bounds_ok (swap_bounds n)"
  by (auto simp: swap_bounds_def bounds_ok_def Let_def)

lemma swap_bounds_swaps:
  "js_greater (playbackRateMin n) (playbackRateMax n) \<Longrightarrow>
   playbackRateMin (swap_bounds n) = playbackRateMax n \<and>
   playbackRateMax (swap_bounds n) = playbackRateMin n"
  by (simp add: swap_bounds_def Let_def)

text \<open>The re-clamp converts a number, so it never throws.\<close>

lemma reclamp_rate_total: "\<exists>n'. reclamp_rate H n = Inr n'"
  by (simp add: reclamp_rate_def clampNumber_num thn_simps)

lemma reclamp_rate_bounds:
  "reclamp_rate H n = Inr n' \<Longrightarrow>
   playbackRateMin n' = playbackRateMin n \<and> playbackRateMax n' = playbackRateMax n"
  by (auto simp: reclamp_rate_def clampNumber_num thn_simps split: if_splits)

lemma js_eq_finite: "isFinite a \<Longrightarrow> js_eq a b \<longleftrightarrow> a = b"
  by (cases a) (auto simp: js_eq_def)

lemma reclamp_rate_value:
  assumes "isFinite (playbackRate n)" and "fin_le (playbackRateMin n) (playbackRateMax n)"
    and "reclamp_rate H n = Inr n'"
  shows "clampNumber H (JNum (playbackRate n)) (playbackRateMin n) (playbackRateMax n)
           = Inr (Some (playbackRate n'))"
proof -
  obtain x where x: "playbackRate n = Fin x" using assms(1) by (cases "playbackRate n") auto
  let ?c = "Math_min (playbackRateMax n) (Math_max (playbackRateMin n) (Fin x))"
  have c: "clampNumber H (JNum (playbackRate n)) (playbackRateMin n) (playbackRateMax n)
             = Inr (Some ?c)"
    by (simp add: clampNumber_num x)
  have "in_range (playbackRateMin n) (playbackRateMax n) ?c" using assms(2) by (rule clamp_in_range)
  hence "isFinite ?c" by (rule in_range_finite)
  hence e: "js_eq ?c (Fin x) \<longleftrightarrow> ?c = Fin x" by (rule js_eq_finite)
  have "playbackRate n' = ?c"
    using assms(3) e x
    by (auto simp: reclamp_rate_def clampNumber_num thn_simps split: if_splits)
  thus ?thesis using c by simp
qed

lemma reclamp_rate_in_range:
  assumes "isFinite (playbackRate n)" and "fin_le (playbackRateMin n) (playbackRateMax n)"
    and "reclamp_rate H n = Inr n'"
  shows "in_range (playbackRateMin n) (playbackRateMax n) (playbackRate n')"
  using assms(2) reclamp_rate_value [OF assms] by (rule clampNumber_in_range)

lemma bounds_reclamp_rate:
  assumes "bounds_ok n" and "fin_le (playbackRateMin n) (playbackRateMax n)"
    and "reclamp_rate H n = Inr n'"
  shows "opts_ok n'"
proof -
  have f: "isFinite (playbackRate n)" using assms(1) by (simp add: bounds_ok_def)
  have r: "in_range (playbackRateMin n) (playbackRateMax n) (playbackRate n')"
    using f assms(2) assms(3) by (rule reclamp_rate_in_range)
  have "bounds_ok n'"
    using assms(1) assms(3) in_range_finite [OF r]
    by (auto simp: reclamp_rate_def clampNumber_num thn_simps bounds_ok_def split: if_splits)
  thus ?thesis using r assms(2) reclamp_rate_bounds [OF assms(3)] by (simp add: opts_ok_def)
qed

lemma opts_ok_upd_showTime: "opts_ok (upd_showTime p n) = opts_ok n"
  by (simp add: upd_showTime_def Let_def opts_ok_def bounds_ok_def)

lemma opts_ok_upd_theme: "opts_ok (upd_theme p n) = opts_ok n"
  by (simp add: upd_theme_def Let_def opts_ok_def bounds_ok_def)

lemma opts_ok_upd_downloadFilename: "opts_ok (upd_downloadFilename p n) = opts_ok n"
  by (simp add: upd_downloadFilename_def Let_def opts_ok_def bounds_ok_def)

lemma opts_ok_upd_ariaLabelPrefix: "opts_ok (upd_ariaLabelPrefix p n) = opts_ok n"
  by (simp add: upd_ariaLabelPrefix_def Let_def opts_ok_def bounds_ok_def)

lemma opts_ok_upd_src: "opts_ok (upd_src p n) = opts_ok n"
  by (simp add: upd_src_def Let_def opts_ok_def bounds_ok_def)

lemma opts_ok_fields_after_swap: "opts_ok n \<Longrightarrow> opts_ok (fields_after_swap p n)"
  by (simp add: fields_after_swap_def opts_ok_upd_showTime opts_ok_upd_theme
        opts_ok_upd_downloadFilename opts_ok_upd_ariaLabelPrefix opts_ok_upd_src)

lemma rate_fields_upd_showTime:
  "playbackRateMin (upd_showTime p n) = playbackRateMin n \<and>
   playbackRateMax (upd_showTime p n) = playbackRateMax n \<and>
   playbackRate (upd_showTime p n) = playbackRate n"
  by (simp add: upd_showTime_def Let_def)

lemma rate_fields_upd_theme:
  "playbackRateMin (upd_theme p n) = playbackRateMin n \<and>
   playbackRateMax (upd_theme p n) = playbackRateMax n \<and>
   playbackRate (upd_theme p n) = playbackRate n"
  by (simp add: upd_theme_def Let_def)

lemma rate_fields_upd_downloadFilename:
  "playbackRateMin (upd_downloadFilename p n) = playbackRateMin n \<and>
   playbackRateMax (upd_downloadFilename p n) = playbackRateMax n \<and>
   playbackRate (upd_downloadFilename p n) = playbackRate n"
  by (simp add: upd_downloadFilename_def Let_def)

lemma rate_fields_upd_ariaLabelPrefix:
  "playbackRateMin (upd_ariaLabelPrefix p n) = playbackRateMin n \<and>
   playbackRateMax (upd_ariaLabelPrefix p n) = playbackRateMax n \<and>
   playbackRate (upd_ariaLabelPrefix p n) = playbackRate n"
  by (simp add: upd_ariaLabelPrefix_def Let_def)

lemma rate_fields_upd_src:
  "playbackRateMin (upd_src p n) = playbackRateMin n \<and>
   playbackRateMax (upd_src p n) = playbackRateMax n \<and>
   playbackRate (upd_src p n) = playbackRate n"
  by (simp add: upd_src_def Let_def)

lemma numeric_fields_after_swap:
  "playbackRateMin (fields_after_swap p n) = playbackRateMin n \<and>
   playbackRateMax (fields_after_swap p n) = playbackRateMax n \<and>
   playbackRate (fields_after_swap p n) = playbackRate n"
  by (simp add: fields_after_swap_def rate_fields_upd_showTime rate_fields_upd_theme
        rate_fields_upd_downloadFilename rate_fields_upd_ariaLabelPrefix rate_fields_upd_src)

lemma bounds_finite_min_max:
  "bounds_ok n \<Longrightarrow> isFinite (playbackRateMin n) \<and> isFinite (playbackRateMax n)"
  by (auto simp: bounds_ok_def dest: in_range_finite)

text \<open>The steps of \<open>next_options\<close>, when it returns; it returns whenever the numeric keys convert.\<close>

lemma next_options_Inr:
  assumes "next_options H p cur = Inr n"
  obtains pre rc where
    "fields_before_swap H p cur = Inr pre"
    "reclamp_rate H (swap_bounds pre) = Inr rc"
    "n = fields_after_swap p rc"
  using assms unfolding next_options_def thn_Inr by blast

lemma next_options_returns:
  assumes "fields_before_swap H p cur = Inr pre"
  shows "\<exists>n. next_options H p cur = Inr n"
  using reclamp_rate_total [of H "swap_bounds pre"] assms
  by (auto simp: next_options_def thn_simps)

lemma next_options_throws:
  "fields_before_swap H p cur = Inl e \<Longrightarrow> next_options H p cur = Inl e"
  by (simp add: next_options_def thn_simps)

lemma next_options_ok:
  assumes "bounds_ok cur" and "next_options H p cur = Inr n"
  shows "opts_ok n"
proof -
  from assms(2) obtain pre rc where
    s: "fields_before_swap H p cur = Inr pre" "reclamp_rate H (swap_bounds pre) = Inr rc"
       "n = fields_after_swap p rc"
    by (rule next_options_Inr)
  have b1: "bounds_ok pre" using assms(1) s(1) by (rule bounds_fields_before_swap)
  have b2: "bounds_ok (swap_bounds pre)" using b1 by (rule bounds_swap_bounds)
  have le: "fin_le (playbackRateMin (swap_bounds pre)) (playbackRateMax (swap_bounds pre))"
    using bounds_finite_min_max [OF b1] by (simp add: swap_bounds_ordered)
  have "opts_ok rc" using b2 le s(2) by (rule bounds_reclamp_rate)
  thus ?thesis unfolding s(3) by (rule opts_ok_fields_after_swap)
qed

subsection \<open>The theme\<close>

lemma trim_idem: "trim (trim t) = trim t"
proof -
  let ?u = "dropWhile is_space t"
  let ?v = "rev (dropWhile is_space (rev ?u))"
  have v: "trim t = ?v" by (simp add: trim_def)
  have split: "?u = ?v @ rev (takeWhile is_space (rev ?u))"
    by (metis rev_append rev_rev_ident takeWhile_dropWhile_id)
  have A: "dropWhile is_space ?v = ?v"
  proof (cases "?v = []")
    case True
    show ?thesis unfolding True by simp
  next
    case False
    hence "hd ?v = hd ?u" using split by (metis hd_append2)
    moreover have "?u \<noteq> []"
    proof
      assume e: "?u = []"
      have "?v = []" unfolding e by simp
      with False show False by blast
    qed
    hence "\<not> is_space (hd ?u)" by (rule hd_dropWhile)
    ultimately show ?thesis by (simp add: dropWhile_eq_self_iff)
  qed
  have "trim ?v = rev (dropWhile is_space (rev (dropWhile is_space ?v)))"
    by (simp only: trim_def)
  also have "\<dots> = rev (dropWhile is_space (rev ?v))" by (simp only: A)
  also have "\<dots> = ?v" by simp
  finally show ?thesis by (simp only: v)
qed

text \<open>
  What the code keeps true of the theme: it is a non-empty string without white space at
  either end.
\<close>

definition theme_wf :: "options \<Rightarrow> bool" where
  "theme_wf n = (theme n \<noteq> [] \<and> trim (theme n) = theme n)"

lemma text_or_wf: "d \<noteq> [] \<Longrightarrow> trim d = d \<Longrightarrow> text_or v d \<noteq> [] \<and> trim (text_or v d) = text_or v d"
  by (cases v) (auto simp: text_or_def trim_idem)

lemma trim_auto: "trim ''auto'' = ''auto''"
  by (simp add: trim_def is_space_def)

lemma theme_wf_upd_theme: "theme_wf n \<Longrightarrow> theme_wf (upd_theme p n)"
  using text_or_wf [of "''auto''" "get_prop p ''theme''"]
  by (simp add: upd_theme_def theme_wf_def Let_def DEFAULT_OPTIONS_def trim_auto)

lemma theme_fields_before_swap:
  assumes "fields_before_swap H p n = Inr n'"
  shows "theme n' = theme n"
proof -
  from assms obtain n1 n2 n3 n4 n5 where
    s: "upd_volume H p n = Inr n1"
       "upd_playbackRate H p (upd_muted p n1) = Inr n2"
       "upd_seekStep H p n2 = Inr n3"
       "upd_playbackRateMin H p (upd_allowDownload p n3) = Inr n4"
       "upd_playbackRateMax H p n4 = Inr n5"
       "upd_playbackRateStep H p n5 = Inr n'"
    by (rule fields_before_swap_Inr)
  have 1: "theme n1 = theme n" using upd_volume_Inr [OF s(1)] by auto
  have m: "theme (upd_muted p n1) = theme n1" by (simp add: upd_muted_def Let_def)
  have 2: "theme n2 = theme (upd_muted p n1)" using upd_playbackRate_Inr [OF s(2)] by auto
  have 3: "theme n3 = theme n2" using upd_seekStep_Inr [OF s(3)] by auto
  have a: "theme (upd_allowDownload p n3) = theme n3" by (simp add: upd_allowDownload_def Let_def)
  have 4: "theme n4 = theme (upd_allowDownload p n3)"
    using upd_playbackRateMin_Inr [OF s(4)] by auto
  have 5: "theme n5 = theme n4" using upd_playbackRateMax_Inr [OF s(5)] by auto
  have 6: "theme n' = theme n5" using upd_playbackRateStep_Inr [OF s(6)] by auto
  show ?thesis by (simp only: 6 5 4 a 3 2 m 1)
qed

lemma theme_swap_reclamp: "reclamp_rate H (swap_bounds n) = Inr n' \<Longrightarrow> theme n' = theme n"
  by (auto simp: reclamp_rate_def clampNumber_num thn_simps swap_bounds_def Let_def
           split: if_splits)

lemma theme_fields_after_swap: "theme (fields_after_swap p n) = theme (upd_theme p n)"
proof -
  have "theme (upd_showTime p n) = theme n" for n
    by (simp add: upd_showTime_def Let_def)
  moreover have "theme (upd_downloadFilename p n) = theme n" for n
    by (simp add: upd_downloadFilename_def Let_def)
  moreover have "theme (upd_ariaLabelPrefix p n) = theme n" for n
    by (simp add: upd_ariaLabelPrefix_def Let_def)
  moreover have "theme (upd_src p n) = theme n" for n
    by (simp add: upd_src_def Let_def)
  moreover have "theme (upd_theme p (upd_showTime p n)) = theme (upd_theme p n)"
    by (simp add: upd_theme_def upd_showTime_def Let_def)
  ultimately show ?thesis by (simp add: fields_after_swap_def)
qed

lemma theme_next_options:
  assumes "next_options H p cur = Inr n"
  shows "theme n =
         (if has_key ''theme'' p then text_or (get_prop p ''theme'') ''auto'' else theme cur)"
proof -
  from assms obtain pre rc where
    s: "fields_before_swap H p cur = Inr pre" "reclamp_rate H (swap_bounds pre) = Inr rc"
       "n = fields_after_swap p rc"
    by (rule next_options_Inr)
  have "theme rc = theme cur"
    using theme_swap_reclamp [OF s(2)] theme_fields_before_swap [OF s(1)] by simp
  thus ?thesis
    unfolding s(3) by (simp add: theme_fields_after_swap upd_theme_def Let_def DEFAULT_OPTIONS_def)
qed

lemma theme_wf_next_options: "theme_wf cur \<Longrightarrow> next_options H p cur = Inr n \<Longrightarrow> theme_wf n"
  using text_or_wf [of "''auto''" "get_prop p ''theme''"]
  by (simp add: theme_wf_def theme_next_options trim_auto)

text \<open>An update of the theme alone converts nothing, so it returns.\<close>

lemma fields_before_swap_theme_only:
  "fields_before_swap H (JObj [(''theme'', v)]) cur = Inr cur"
  by (simp add: fields_before_swap_def upd_volume_def upd_muted_def upd_playbackRate_def
        upd_seekStep_def upd_allowDownload_def upd_playbackRateMin_def upd_playbackRateMax_def
        upd_playbackRateStep_def thn_simps)

lemma theme_purple:
  "\<exists>n. next_options H (JObj [(''theme'', JStr ''purple'')]) cur = Inr n \<and> theme n = ''purple''"
proof -
  from next_options_returns [OF fields_before_swap_theme_only]
  obtain n where n: "next_options H (JObj [(''theme'', JStr ''purple'')]) cur = Inr n"
    by blast
  have "theme n = ''purple''"
    unfolding theme_next_options [OF n] by (simp add: text_or_def trim_def is_space_def)
  with n show ?thesis by blast
qed

subsection \<open>The merge of the constructor\<close>

lemma or_else_clamp_in_range:
  "fin_le lo hi \<Longrightarrow> in_range lo hi d \<Longrightarrow> clampNumber H v lo hi = Inr r \<Longrightarrow>
   in_range lo hi (or_else r d)"
  by (cases r) (auto simp: or_else_def dest: clampNumber_in_range)

lemma DEFAULT_OPTIONS_ok: "opts_ok DEFAULT_OPTIONS"
  by (simp add: opts_ok_def bounds_ok_def in_range_def DEFAULT_OPTIONS_def fl_fifth fl_twentieth
        fl_hundredth)

lemma DEFAULT_OPTIONS_theme_wf: "theme_wf DEFAULT_OPTIONS"
  by (simp add: theme_wf_def DEFAULT_OPTIONS_def trim_auto)

lemma in_range_pick:
  "in_range lo hi a \<Longrightarrow> in_range lo hi b \<Longrightarrow> in_range lo hi (if c then a else b)"
  by simp

lemma merge_bounds_ordered:
  "isFinite a \<Longrightarrow> isFinite b \<Longrightarrow>
   fin_le (if js_greater a b then b else a) (if js_greater a b then a else b)"
  by (cases a; cases b) (auto simp: js_greater_def)

text \<open>The conversions of \<open>_mergeOptions\<close> and the record it builds, when it returns.\<close>

lemma mergeOptions_Inr:
  assumes "mergeOptions H base override inc = Inr m"
  obtains vol mn mx stp rate sk where
    "clampNumber H (get_prop (merged_object base override inc) ''volume'') (Fin 0) (Fin 100)
       = Inr vol"
    "clampNumber H (get_prop (merged_object base override inc) ''playbackRateMin'')
       (fl (2 / 10)) (Fin 4) = Inr mn"
    "clampNumber H (get_prop (merged_object base override inc) ''playbackRateMax'')
       (fl (2 / 10)) (Fin 4) = Inr mx"
    "clampNumber H (get_prop (merged_object base override inc) ''playbackRateStep'')
       (fl (1 / 100)) (Fin 1) = Inr stp"
    "clampNumber H (get_prop (merged_object base override inc) ''playbackRate'')
       (if js_greater (or_else mn (playbackRateMin base)) (or_else mx (playbackRateMax base))
        then or_else mx (playbackRateMax base) else or_else mn (playbackRateMin base))
       (if js_greater (or_else mn (playbackRateMin base)) (or_else mx (playbackRateMax base))
        then or_else mn (playbackRateMin base) else or_else mx (playbackRateMax base))
       = Inr rate"
    "clampNumber H (get_prop (merged_object base override inc) ''seekStep'') (Fin 1) (Fin 120)
       = Inr sk"
    "volume m = or_else vol (volume base)"
    "playbackRate m = or_else rate (Fin 1)"
    "playbackRateMin m =
       (if js_greater (or_else mn (playbackRateMin base)) (or_else mx (playbackRateMax base))
        then or_else mx (playbackRateMax base) else or_else mn (playbackRateMin base))"
    "playbackRateMax m =
       (if js_greater (or_else mn (playbackRateMin base)) (or_else mx (playbackRateMax base))
        then or_else mn (playbackRateMin base) else or_else mx (playbackRateMax base))"
    "playbackRateStep m = or_else stp (playbackRateStep base)"
    "seekStep m = or_else sk (seekStep base)"
    "theme m = text_or (get_prop (merged_object base override inc) ''theme'') (theme base)"
proof -
  from assms obtain vol mn mx stp rate sk where
    c: "clampNumber H (get_prop (merged_object base override inc) ''volume'') (Fin 0) (Fin 100)
       = Inr vol"
    "clampNumber H (get_prop (merged_object base override inc) ''playbackRateMin'')
       (fl (2 / 10)) (Fin 4) = Inr mn"
    "clampNumber H (get_prop (merged_object base override inc) ''playbackRateMax'')
       (fl (2 / 10)) (Fin 4) = Inr mx"
    "clampNumber H (get_prop (merged_object base override inc) ''playbackRateStep'')
       (fl (1 / 100)) (Fin 1) = Inr stp"
    "clampNumber H (get_prop (merged_object base override inc) ''playbackRate'')
       (if js_greater (or_else mn (playbackRateMin base)) (or_else mx (playbackRateMax base))
        then or_else mx (playbackRateMax base) else or_else mn (playbackRateMin base))
       (if js_greater (or_else mn (playbackRateMin base)) (or_else mx (playbackRateMax base))
        then or_else mn (playbackRateMin base) else or_else mx (playbackRateMax base))
       = Inr rate"
    "clampNumber H (get_prop (merged_object base override inc) ''seekStep'') (Fin 1) (Fin 120)
       = Inr sk"
    and m: "m = \<lparr> src = string_or_empty (get_prop (merged_object base override inc) ''src''),
                  volume = or_else vol (volume base),
                  muted = to_boolean (get_prop (merged_object base override inc) ''muted''),
                  playbackRate = or_else rate (Fin 1),
                  playbackRateMin =
                    (if js_greater (or_else mn (playbackRateMin base))
                          (or_else mx (playbackRateMax base))
                     then or_else mx (playbackRateMax base) else or_else mn (playbackRateMin base)),
                  playbackRateMax =
                    (if js_greater (or_else mn (playbackRateMin base))
                          (or_else mx (playbackRateMax base))
                     then or_else mn (playbackRateMin base) else or_else mx (playbackRateMax base)),
                  playbackRateStep = or_else stp (playbackRateStep base),
                  seekStep = or_else sk (seekStep base),
                  allowDownload =
                    to_boolean (get_prop (merged_object base override inc) ''allowDownload''),
                  showTime = to_boolean (get_prop (merged_object base override inc) ''showTime''),
                  theme = text_or (get_prop (merged_object base override inc) ''theme'')
                            (theme base),
                  downloadFilename =
                    text_or_null (get_prop (merged_object base override inc) ''downloadFilename''),
                  ariaLabelPrefix =
                    text_or (get_prop (merged_object base override inc) ''ariaLabelPrefix'')
                      (ariaLabelPrefix base),
                  extras = filter (\<lambda>(k, v). k \<notin> set KNOWN_KEYS)
                             (case merged_object base override inc of
                                JObj kvs \<Rightarrow> kvs | _ \<Rightarrow> []) \<rparr>"
    unfolding mergeOptions_def Let_def thn_Inr by blast
  show ?thesis
    by (rule that [OF c]) (simp_all add: m)
qed

lemma mergeOptions_bounds:
  assumes "bounds_ok base" and "mergeOptions H base override inc = Inr m"
  shows "bounds_ok m \<and> fin_le (playbackRateMin m) (playbackRateMax m)"
proof -
  let ?g = "merged_object base override inc"
  from assms(2) obtain vol mn mx stp rate sk where
    c: "clampNumber H (get_prop ?g ''volume'') (Fin 0) (Fin 100) = Inr vol"
       "clampNumber H (get_prop ?g ''playbackRateMin'') (fl (2 / 10)) (Fin 4) = Inr mn"
       "clampNumber H (get_prop ?g ''playbackRateMax'') (fl (2 / 10)) (Fin 4) = Inr mx"
       "clampNumber H (get_prop ?g ''playbackRateStep'') (fl (1 / 100)) (Fin 1) = Inr stp"
       "clampNumber H (get_prop ?g ''playbackRate'')
          (if js_greater (or_else mn (playbackRateMin base)) (or_else mx (playbackRateMax base))
           then or_else mx (playbackRateMax base) else or_else mn (playbackRateMin base))
          (if js_greater (or_else mn (playbackRateMin base)) (or_else mx (playbackRateMax base))
           then or_else mn (playbackRateMin base) else or_else mx (playbackRateMax base))
          = Inr rate"
       "clampNumber H (get_prop ?g ''seekStep'') (Fin 1) (Fin 120) = Inr sk"
    and f: "volume m = or_else vol (volume base)"
       "playbackRate m = or_else rate (Fin 1)"
       "playbackRateMin m =
          (if js_greater (or_else mn (playbackRateMin base)) (or_else mx (playbackRateMax base))
           then or_else mx (playbackRateMax base) else or_else mn (playbackRateMin base))"
       "playbackRateMax m =
          (if js_greater (or_else mn (playbackRateMin base)) (or_else mx (playbackRateMax base))
           then or_else mn (playbackRateMin base) else or_else mx (playbackRateMax base))"
       "playbackRateStep m = or_else stp (playbackRateStep base)"
       "seekStep m = or_else sk (seekStep base)"
    by (rule mergeOptions_Inr)
  let ?min = "or_else mn (playbackRateMin base)"
  let ?max = "or_else mx (playbackRateMax base)"
  let ?lo = "if js_greater ?min ?max then ?max else ?min"
  let ?hi = "if js_greater ?min ?max then ?min else ?max"
  have le: "fin_le (fl (2 / 10)) (Fin 4)" by (simp add: fl_fifth)
  have le2: "fin_le (fl (1 / 100)) (Fin 1)" by (simp add: fl_hundredth)
  have rmin: "in_range (fl (2 / 10)) (Fin 4) ?min"
    using assms(1) by (intro or_else_clamp_in_range [OF le _ c(2)]) (simp add: bounds_ok_def)
  have rmax: "in_range (fl (2 / 10)) (Fin 4) ?max"
    using assms(1) by (intro or_else_clamp_in_range [OF le _ c(3)]) (simp add: bounds_ok_def)
  have rlo: "in_range (fl (2 / 10)) (Fin 4) ?lo" by (rule in_range_pick [OF rmax rmin])
  have rhi: "in_range (fl (2 / 10)) (Fin 4) ?hi" by (rule in_range_pick [OF rmin rmax])
  have ord: "fin_le ?lo ?hi"
    using in_range_finite [OF rmin] in_range_finite [OF rmax] by (rule merge_bounds_ordered)
  have vol: "in_range (Fin 0) (Fin 100) (or_else vol (volume base))"
    using assms(1) by (intro or_else_clamp_in_range [OF _ _ c(1)]) (simp_all add: bounds_ok_def)
  have stp: "in_range (fl (1 / 100)) (Fin 1) (or_else stp (playbackRateStep base))"
    using assms(1) by (intro or_else_clamp_in_range [OF le2 _ c(4)]) (simp add: bounds_ok_def)
  have sk: "in_range (Fin 1) (Fin 120) (or_else sk (seekStep base))"
    using assms(1) by (intro or_else_clamp_in_range [OF _ _ c(6)]) (simp_all add: bounds_ok_def)
  have rate: "isFinite (or_else rate (Fin 1))"
  proof (cases rate)
    case None
    then show ?thesis by (simp add: or_else_def)
  next
    case (Some r)
    have "isFinite r"
      using in_range_finite [OF rlo] in_range_finite [OF rhi] c(5) [unfolded Some]
      by (rule clampNumber_finite)
    with Some show ?thesis by (simp add: or_else_def)
  qed
  show ?thesis
    unfolding bounds_ok_def f using vol stp sk rate rlo rhi ord by simp
qed

lemma constructed_options_ok:
  assumes "constructed_options H override = Inr n"
  shows "opts_ok n"
proof -
  from assms obtain m where
    m: "mergeOptions H DEFAULT_OPTIONS override True = Inr m"
       "next_options H (JObj (raw_options m)) m = Inr n"
    unfolding constructed_options_def thn_Inr by blast
  have "bounds_ok DEFAULT_OPTIONS" using DEFAULT_OPTIONS_ok by (simp add: opts_ok_def)
  hence "bounds_ok m" using mergeOptions_bounds [OF _ m(1)] by blast
  thus ?thesis using m(2) by (rule next_options_ok)
qed

lemma mergeOptions_theme_wf:
  assumes "theme_wf base" and "mergeOptions H base override inc = Inr m"
  shows "theme_wf m"
proof -
  from assms(2) have
    "theme m = text_or (get_prop (merged_object base override inc) ''theme'') (theme base)"
    by (rule mergeOptions_Inr)
  thus ?thesis
    using assms(1)
      text_or_wf [of "theme base" "get_prop (merged_object base override inc) ''theme''"]
    by (simp add: theme_wf_def)
qed

lemma constructed_options_theme_wf:
  assumes "constructed_options H override = Inr n"
  shows "theme_wf n"
proof -
  from assms obtain m where
    m: "mergeOptions H DEFAULT_OPTIONS override True = Inr m"
       "next_options H (JObj (raw_options m)) m = Inr n"
    unfolding constructed_options_def thn_Inr by blast
  have "theme_wf m" using DEFAULT_OPTIONS_theme_wf m(1) by (rule mergeOptions_theme_wf)
  thus ?thesis using m(2) by (rule theme_wf_next_options)
qed

section \<open>The methods of the player\<close>

subsection \<open>Access to the collaborators\<close>

text \<open>
  A property access through \<open>this._audio\<close> or \<open>this._dom\<close> throws a \<open>TypeError\<close> once the
  reference is \<open>null\<close>. An exception ends the method; the model returns the error alone.
\<close>

definition set_audio :: "(media \<Rightarrow> media) \<Rightarrow> player \<Rightarrow> error + player" where
  "set_audio f s = (if audio_ref s then Inr (s\<lparr>element := f (element s)\<rparr>) else Inl TypeError)"

definition set_dom :: "(surface \<Rightarrow> surface) \<Rightarrow> player \<Rightarrow> error + player" where
  "set_dom f s = (if dom_ref s then Inr (s\<lparr>controls := f (controls s)\<rparr>) else Inl TypeError)"

definition audio_pause :: "media \<Rightarrow> media" where
  "audio_pause a = a\<lparr>a_paused := True, a_calls := a_calls a @ [MPause]\<rparr>"

definition audio_play :: "media \<Rightarrow> media" where
  "audio_play a = a\<lparr>a_paused := False, a_calls := a_calls a @ [MPlay]\<rparr>"

definition audio_load :: "media \<Rightarrow> media" where
  "audio_load a = a\<lparr>a_calls := a_calls a @ [MLoad]\<rparr>"

subsection \<open>Pushing state into the control surface\<close>

definition updateRateOptions :: "host \<Rightarrow> player \<Rightarrow> error + player" where
  "updateRateOptions H s =
     set_dom (\<lambda>d. d\<lparr>d_rateSlider_min := num_to_string H (playbackRateMin (opts s)),
                     d_rateSlider_max := num_to_string H (playbackRateMax (opts s)),
                     d_rateSlider_step := num_to_string H (playbackRateStep (opts s))\<rparr>) s"

definition updateRateUI :: "host \<Rightarrow> player \<Rightarrow> error + player" where
  "updateRateUI H s =
     (if \<not> dom_ref s \<or> \<not> audio_ref s then Inl TypeError
      else let rate = (if to_boolean (JNum (a_playbackRate (element s)))
                       then a_playbackRate (element s) else playbackRate (opts s))
           in Inr (s\<lparr>opts := (opts s)\<lparr>playbackRate := rate\<rparr>,
                      controls := (controls s)\<lparr>d_rateValue_text := formatRate H rate,
                                               d_ratePopoverValue_text := formatRate H rate,
                                               d_rateSlider_value := num_to_string H rate\<rparr>\<rparr>))"

definition updateVolumeUI :: "host \<Rightarrow> bool \<Rightarrow> player \<Rightarrow> error + player" where
  "updateVolumeUI H skipEmit s =
     (if \<not> audio_ref s \<or> \<not> dom_ref s then Inl TypeError
      else let vol = Math_round (js_mul_const (a_volume (element s)) 100);
               m = a_muted (element s);
               s1 = s\<lparr>controls := (controls s)\<lparr>d_volumeSlider_value := num_to_string H vol,
                                                   d_volumeValue_text := num_to_string H vol,
                                                   d_root_muted := m,
                                                   d_muteBtn_label := (if m then ''Unmute'' else ''Mute'')\<rparr>\<rparr>
           in if skipEmit then Inr s1
              else thn (if \<not> js_eq vol (volume (opts s1))
                        then emit H (JStr ''volumechange'') (PVolume vol)
                               (s1\<lparr>opts := (opts s1)\<lparr>volume := vol\<rparr>\<rparr>)
                        else Inr s1)
                     (\<lambda>s2. if m \<noteq> muted (opts s2)
                           then emit H (JStr ''mutechange'') (PMuted m)
                                  (s2\<lparr>opts := (opts s2)\<lparr>muted := m\<rparr>\<rparr>)
                           else Inr s2))"

definition updatePlayState :: "player \<Rightarrow> error + player" where
  "updatePlayState s =
     (if \<not> audio_ref s then Inl TypeError
      else let isPlaying = \<not> a_paused (element s)
           in set_dom (\<lambda>d. d\<lparr>d_root_playing := isPlaying,
                              d_playBtn_label := (if isPlaying then ''Pause'' else ''Play'')\<rparr>) s)"

definition stopProgressLoop :: "player \<Rightarrow> player" where
  "stopProgressLoop s = (if rafId s \<noteq> None then s\<lparr>rafId := None\<rparr> else s)"

definition syncDownloadState :: "player \<Rightarrow> error + player" where
  "syncDownloadState s =
     (let allow = (case m_allowDownload (meta s) of
                     Some b \<Rightarrow> b
                   | None \<Rightarrow> allowDownload (opts s))
      in set_dom (\<lambda>d. d\<lparr>d_downloadBtn_disabled := \<not> allow,
                         d_downloadBtn_hidden := \<not> allow\<rparr>) s)"

definition updateSeekLabels :: "host \<Rightarrow> player \<Rightarrow> error + player" where
  "updateSeekLabels H s =
     (let n = num_to_string H (seekStep (opts s))
      in set_dom (\<lambda>d. d\<lparr>d_rewindBtn_label := ''Rewind '' @ n @ '' seconds'',
                         d_rewindBtn_num := n,
                         d_forwardBtn_label := ''Forward '' @ n @ '' seconds'',
                         d_forwardBtn_num := n\<rparr>) s)"

definition updateTitle :: "player \<Rightarrow> error + player" where
  "updateTitle s =
     (let title = m_title (meta s)
      in set_dom (\<lambda>d. d\<lparr>d_title_text := title, d_title_hidden := (title = [])\<rparr>) s)"

definition syncProgress :: "host \<Rightarrow> jsval \<Rightarrow> player \<Rightarrow> error + player" where
  "syncProgress H currentTime s =
     thn (case currentTime of
            JNum n \<Rightarrow> if isFinite n then Inr n
                      else if audio_ref s then Inr (a_currentTime (element s)) else Inl TypeError
          | _ \<Rightarrow> if audio_ref s then Inr (a_currentTime (element s)) else Inl TypeError)
       (\<lambda>current. set_dom (\<lambda>d. d\<lparr>d_currentTime_text := formatTime H current,
                                  d_progressRange_value := num_to_string H current\<rparr>) s)"

definition applyOptions :: "host \<Rightarrow> player \<Rightarrow> error + player" where
  "applyOptions H s0 =
     thn (updateRateOptions H s0) (\<lambda>s.
     thn (set_audio (\<lambda>a. a\<lparr>a_playbackRate := playbackRate (opts s)\<rparr>) s) (\<lambda>s.
     thn (updateRateUI H s) (\<lambda>s.
     thn (set_audio (\<lambda>a. a\<lparr>a_volume := js_div_const (volume (opts s)) 100,
                            a_muted := muted (opts s)\<rparr>) s) (\<lambda>s.
     thn (updateVolumeUI H True s) (\<lambda>s.
     thn (syncDownloadState s) (\<lambda>s.
     thn (updateSeekLabels H s) (\<lambda>s.
     thn (set_dom (\<lambda>d. d\<lparr>d_root_theme := theme (opts s),
                          d_root_label := ariaLabelPrefix (opts s),
                          d_timeRow_hidden := (\<not> showTime (opts s))\<rparr>) s) (\<lambda>s.
     thn (if src (opts s) \<noteq> []
          then (if \<not> audio_ref s then Inl TypeError
                else if a_src (element s) \<noteq> src (opts s)
                     then set_audio (\<lambda>a. a\<lparr>a_src := src (opts s)\<rparr>) s
                     else Inr s)
          else Inr s) (\<lambda>s.
     updateTitle s)))))))))"

subsection \<open>\<open>load\<close>\<close>

fun is_string :: "jsval \<Rightarrow> bool" where
  "is_string (JStr t) = True"
| "is_string v = False"

text \<open>
  The track metadata read from the \<open>meta\<close> argument. The default \<open>{}\<close> replaces \<open>undefined\<close>
  only; reading a property of \<open>null\<close> throws.
\<close>

definition read_meta :: "jsval \<Rightarrow> error + meta" where
  "read_meta metav =
     (let m = (if metav = JUndefined then JObj [] else metav)
      in if m = JNull then Inl TypeError
         else Inr \<lparr> m_title = (case get_prop m ''title'' of JStr t \<Rightarrow> trim t | _ \<Rightarrow> []),
                    m_filename = text_or_null (get_prop m ''filename''),
                    m_allowDownload = (case get_prop m ''allowDownload'' of
                                         JBool b \<Rightarrow> Some b
                                       | _ \<Rightarrow> None) \<rparr>)"

definition load :: "host \<Rightarrow> jsval \<Rightarrow> jsval \<Rightarrow> jsval \<Rightarrow> player \<Rightarrow> error + player" where
  "load H srcv metav previousSrc s0 =
     (if \<not> to_boolean srcv \<or> \<not> is_string srcv then Inr s0
      else if \<not> audio_ref s0 then Inl TypeError
      else let source = string_or_empty srcv;
               previous = (if previousSrc = JNull \<or> previousSrc = JUndefined
                           then JStr (audio_src H (element s0)) else previousSrc)
           in thn (set_audio audio_pause s0) (\<lambda>s.
              thn (updatePlayState s) (\<lambda>s.
              thn (read_meta metav) (\<lambda>m.
              thn (set_audio (\<lambda>a. (audio_load (a\<lparr>a_src := source\<rparr>))
                                      \<lparr>a_playbackRate := playbackRate (opts s)\<rparr>)
                     ((stopProgressLoop s)\<lparr>meta := m, opts := (opts s)\<lparr>src := source\<rparr>\<rparr>)) (\<lambda>s.
              thn (updateRateUI H s) (\<lambda>s.
              thn (set_audio (\<lambda>a. a\<lparr>a_volume := js_div_const (volume (opts s)) 100,
                                     a_muted := muted (opts s)\<rparr>) s) (\<lambda>s.
              thn (updateVolumeUI H True s) (\<lambda>s.
              thn (updateTitle s) (\<lambda>s.
              thn (syncDownloadState s) (\<lambda>s.
              thn (set_dom (\<lambda>d. d\<lparr>d_currentTime_text := ''0:00'',
                                   d_duration_text := ''0:00'',
                                   d_progressRange_value := ''0'',
                                   d_progressRange_max := ''0''\<rparr>) s) (\<lambda>s.
              if JStr source \<noteq> previous
              then emit H (JStr ''srcchange'') (PSrc source) s
              else Inr s)))))))))))"

subsection \<open>Playback\<close>

definition play :: "player \<Rightarrow> error + player" where
  "play s = (if destroyed s then Inr s else set_audio audio_play s)"

text \<open>
  The promise of \<open>play()\<close> may reject later; its \<open>catch\<close> then emits \<open>error\<close> with the cause.
\<close>

definition play_rejected :: "host \<Rightarrow> error \<Rightarrow> player \<Rightarrow> error + player" where
  "play_rejected H e s = emit H (JStr ''error'') (PError e) s"

definition pause :: "player \<Rightarrow> error + player" where
  "pause s = (if destroyed s then Inr s else set_audio audio_pause s)"

definition toggle :: "player \<Rightarrow> error + player" where
  "toggle s =
     (if \<not> audio_ref s then Inl TypeError
      else if a_paused (element s) then play s else pause s)"

text \<open>\<open>Math.min\<close> converts the argument \<open>seconds\<close> to a number, which may throw.\<close>

definition seek :: "host \<Rightarrow> jsval \<Rightarrow> player \<Rightarrow> error + player" where
  "seek H seconds s =
     (if \<not> audio_ref s then Inl TypeError
      else if \<not> isFinite (a_duration (element s)) then Inr s
      else let from = a_currentTime (element s)
           in thn (to_number H seconds) (\<lambda>sec.
              let to = Math_max (Fin 0) (Math_min (a_duration (element s)) sec)
              in if js_eq from to then Inr s
                 else thn (set_audio (\<lambda>a. a\<lparr>a_currentTime := to\<rparr>) s) (\<lambda>s.
                      thn (syncProgress H JUndefined s) (\<lambda>s.
                      emit H (JStr ''seek'') (PSeek from to) s))))"

definition seekBy :: "host \<Rightarrow> jsval \<Rightarrow> player \<Rightarrow> error + player" where
  "seekBy H deltaSeconds s =
     thn (to_number H deltaSeconds) (\<lambda>delta.
       if \<not> isFinite delta then Inr s
       else if \<not> audio_ref s then Inl TypeError
       else seek H (JNum (js_add (a_currentTime (element s)) delta)) s)"

definition setPlaybackRate :: "host \<Rightarrow> jsval \<Rightarrow> player \<Rightarrow> error + player" where
  "setPlaybackRate H rate s =
     thn (clampNumber H rate (playbackRateMin (opts s)) (playbackRateMax (opts s))) (\<lambda>r.
       case r of
         None \<Rightarrow> Inr s
       | Some v \<Rightarrow> set_audio (\<lambda>a. a\<lparr>a_playbackRate := v\<rparr>) s)"

definition setVolume :: "host \<Rightarrow> jsval \<Rightarrow> player \<Rightarrow> error + player" where
  "setVolume H volume0to100 s =
     thn (clampNumber H volume0to100 (Fin 0) (Fin 100)) (\<lambda>r.
       case r of
         None \<Rightarrow> Inr s
       | Some v \<Rightarrow>
           thn (set_audio (\<lambda>a. a\<lparr>a_volume := js_div_const v 100\<rparr>) s) (\<lambda>s.
           if js_greater v (Fin 0) \<and> a_muted (element s)
           then set_audio (\<lambda>a. a\<lparr>a_muted := False\<rparr>) s
           else Inr s))"

definition mute :: "player \<Rightarrow> error + player" where
  "mute s = set_audio (\<lambda>a. a\<lparr>a_muted := True\<rparr>) s"

definition unmute :: "player \<Rightarrow> error + player" where
  "unmute s = set_audio (\<lambda>a. a\<lparr>a_muted := False\<rparr>) s"

definition toggleMute :: "player \<Rightarrow> error + player" where
  "toggleMute s = set_audio (\<lambda>a. a\<lparr>a_muted := (\<not> a_muted a)\<rparr>) s"

subsection \<open>\<open>destroy\<close>\<close>

definition destroy :: "player \<Rightarrow> player" where
  "destroy s0 =
     (if destroyed s0 then s0
      else let s1 = (stopProgressLoop (s0\<lparr>destroyed := True\<rparr>))\<lparr>listeners := []\<rparr>;
               s2 = (if audio_ref s1
                     then s1\<lparr>element := (audio_pause (element s1))\<lparr>a_src := []\<rparr>\<rparr>
                     else s1);
               s3 = (if dom_ref s2 \<and> d_attached (controls s2)
                     then s2\<lparr>controls := (controls s2)\<lparr>d_attached := False\<rparr>\<rparr>
                     else s2)
           in s3\<lparr>dom_ref := False, audio_ref := False, events := Map.empty\<rparr>)"

subsection \<open>\<open>getOptions\<close> and \<open>setOptions\<close>\<close>

definition getOptions :: "player \<Rightarrow> options" where
  "getOptions s = opts s"

text \<open>
  The parameter has the default \<open>{}\<close>, which replaces \<open>undefined\<close> only: \<open>setOptions()\<close> runs
  the whole method on the empty update, while any other value that is not an object returns
  at the guard.
\<close>

definition setOptions :: "host \<Rightarrow> jsval \<Rightarrow> player \<Rightarrow> error + (player \<times> options)" where
  "setOptions H partial0 s0 =
     (let partial = (if partial0 = JUndefined then JObj [] else partial0)
      in if \<not> to_boolean partial \<or> \<not> is_object partial then Inr (s0, getOptions s0)
         else let previous = opts s0
              in thn (next_options H partial (opts s0)) (\<lambda>next.
                 thn (applyOptions H (s0\<lparr>opts := next\<rparr>)) (\<lambda>s.
                 thn (if has_key ''src'' partial \<and> src (opts s) \<noteq> []
                      then load H (JStr (src (opts s))) (JObj []) (JStr (src previous)) s
                      else Inr s) (\<lambda>s.
                 Inr (s, getOptions s)))))"

section \<open>A player to run examples on\<close>

text \<open>
  A live player with the default options and the source \<open>a.mp3\<close>: no handler registered,
  a track of ten seconds loaded and paused at its start.
\<close>

definition sample_media :: media where
  "sample_media = \<lparr>
     a_src = ''a.mp3'',
     a_currentTime = Fin 0,
     a_duration = Fin 10,
     a_volume = Fin 1,
     a_muted = False,
     a_playbackRate = Fin 1,
     a_paused = True,
     a_calls = [] \<rparr>"

definition sample_surface :: surface where
  "sample_surface = \<lparr>
     d_attached = True,
     d_root_theme = ''auto'',
     d_root_label = ''Audio player'',
     d_root_muted = False,
     d_root_playing = False,
     d_title_text = [],
     d_title_hidden = True,
     d_playBtn_label = ''Play'',
     d_rewindBtn_label = ''Rewind 10 seconds'',
     d_rewindBtn_num = ''10'',
     d_forwardBtn_label = ''Forward 10 seconds'',
     d_forwardBtn_num = ''10'',
     d_rateSlider_min = ''0.2'',
     d_rateSlider_max = ''2'',
     d_rateSlider_step = ''0.05'',
     d_rateSlider_value = ''1'',
     d_rateValue_text = ''1.00x'',
     d_ratePopoverValue_text = ''1.00x'',
     d_muteBtn_label = ''Mute'',
     d_volumeSlider_value = ''100'',
     d_volumeValue_text = ''100'',
     d_downloadBtn_disabled = False,
     d_downloadBtn_hidden = False,
     d_timeRow_hidden = False,
     d_currentTime_text = ''0:00'',
     d_duration_text = ''0:10'',
     d_progressRange_value = ''0'',
     d_progressRange_max = ''10'' \<rparr>"

definition sample_player :: player where
  "sample_player = \<lparr>
     opts = DEFAULT_OPTIONS\<lparr>src := ''a.mp3''\<rparr>,
     meta = \<lparr> m_title = [], m_filename = None, m_allowDownload = None \<rparr>,
     events = Map.empty,
     listeners = [(''playBtn'', ''click''), (''audio'', ''loadedmetadata'')],
     destroyed = False,
     rafId = None,
     audio_ref = True,
     element = sample_media,
     dom_ref = True,
     controls = sample_surface,
     trace = [],
     calls = [],
     console = [] \<rparr>"

section \<open>What the methods do\<close>

subsection \<open>After \<open>destroy\<close>\<close>


lemma destroyed_destroy: "destroyed (destroy s)"
  by (simp add: destroy_def stopProgressLoop_def Let_def)

lemma destroy_idem: "destroy (destroy s) = destroy s"
  using destroyed_destroy [of s] by (simp add: destroy_def [of "destroy s"])

lemma play_after_destroy: "play (destroy s) = Inr (destroy s)"
  by (simp add: play_def destroyed_destroy)

lemma pause_after_destroy: "pause (destroy s) = Inr (destroy s)"
  by (simp add: pause_def destroyed_destroy)

lemma audio_ref_destroy_fresh: "\<not> destroyed s \<Longrightarrow> \<not> audio_ref (destroy s)"
  by (simp add: destroy_def stopProgressLoop_def Let_def)

lemma seek_without_audio: "\<not> audio_ref s \<Longrightarrow> seek H v s = Inl TypeError"
  by (simp add: seek_def)

lemma toggle_without_audio: "\<not> audio_ref s \<Longrightarrow> toggle s = Inl TypeError"
  by (simp add: toggle_def)

lemma mute_without_audio:
  "\<not> audio_ref s \<Longrightarrow>
   mute s = Inl TypeError \<and> unmute s = Inl TypeError \<and> toggleMute s = Inl TypeError"
  by (simp add: mute_def unmute_def toggleMute_def set_audio_def)

lemma seekBy_without_audio:
  "\<not> audio_ref s \<Longrightarrow> to_number H v = Inr (Fin x) \<Longrightarrow> seekBy H v s = Inl TypeError"
  by (simp add: seekBy_def thn_simps)

lemma setVolume_without_audio:
  "\<not> audio_ref s \<Longrightarrow> to_number H v = Inr (Fin x) \<Longrightarrow> setVolume H v s = Inl TypeError"
  by (simp add: setVolume_def clampNumber_def thn_simps set_audio_def)

lemma setPlaybackRate_without_audio:
  "\<not> audio_ref s \<Longrightarrow> to_number H v = Inr (Fin x) \<Longrightarrow>
   setPlaybackRate H v s = Inl TypeError"
  by (simp add: setPlaybackRate_def clampNumber_def thn_simps set_audio_def)

lemma sample_destroyed_no_audio: "\<not> audio_ref (destroy sample_player)"
  by (rule audio_ref_destroy_fresh) (simp add: sample_player_def)

text \<open>
  Claim C3 on the code. A second \<open>destroy()\<close> changes nothing, and \<open>play\<close> and \<open>pause\<close> return
  at their \<open>_destroyed\<close> guard. The other methods have no guard: on a destroyed player
  \<open>this._audio\<close> is \<open>null\<close> and \<open>toggle\<close>, \<open>seek\<close>, \<open>seekBy\<close>, \<open>setPlaybackRate\<close>, \<open>setVolume\<close>,
  \<open>mute\<close>, \<open>unmute\<close> and \<open>toggleMute\<close> throw a \<open>TypeError\<close> where the claim says they do nothing.
\<close>


theorem C3_seek_after_destroy_throws:
  "destroy (destroy sample_player) = destroy sample_player \<and>
   play (destroy sample_player) = Inr (destroy sample_player) \<and>
   pause (destroy sample_player) = Inr (destroy sample_player) \<and>
   seek sample_host (JNum (Fin 5)) (destroy sample_player) = Inl TypeError \<and>
   toggle (destroy sample_player) = Inl TypeError \<and>
   seekBy sample_host (JNum (Fin 5)) (destroy sample_player) = Inl TypeError \<and>
   setPlaybackRate sample_host (JNum (Fin 1)) (destroy sample_player) = Inl TypeError \<and>
   setVolume sample_host (JNum (Fin 50)) (destroy sample_player) = Inl TypeError \<and>
   mute (destroy sample_player) = Inl TypeError \<and>
   unmute (destroy sample_player) = Inl TypeError \<and>
   toggleMute (destroy sample_player) = Inl TypeError"
  using sample_destroyed_no_audio
  by (simp add: destroy_idem play_after_destroy pause_after_destroy seek_without_audio
        toggle_without_audio mute_without_audio
        seekBy_without_audio [where x = 5] setVolume_without_audio [where x = 50]
        setPlaybackRate_without_audio [where x = 1])

subsection \<open>\<open>setVolume\<close>\<close>





text \<open>
  The conversion of an argument: a primitive value converts without an exception; an object
  converts through its \<open>valueOf\<close> and \<open>toString\<close>, and when neither is callable the
  conversion throws a \<open>TypeError\<close>.
\<close>

lemma to_number_no_conversion:
  "to_number H (JObj [(''valueOf'', JNum (Fin 1)), (''toString'', JNum (Fin 2))]) = Inl TypeError"
  by (simp add: to_primitive_def own_method_def thn_simps)


lemma to_number_plain_object: "to_number H (JObj []) = Inr (str_to_num H ''[object Object]'')"
  by (simp add: to_primitive_def own_method_def thn_simps)


lemma sample_audio_ref: "audio_ref sample_player"
  by (simp add: sample_player_def)





subsection \<open>\<open>emit\<close> in closed form\<close>

lemma call_handler_closed:
  "call_handler H p s h =
   s\<lparr>calls := calls s @ [(h, p)],
     console := console s @ (case invoke H h p of None \<Rightarrow> [] | Some e \<Rightarrow> [e])\<rparr>"
  by (simp add: call_handler_def try_handler_def split: option.splits)

lemma foldl_call_handler_closed:
  "foldl (call_handler H p) s hs =
   s\<lparr>calls := calls s @ map (\<lambda>h. (h, p)) hs,
     console := console s @ List.map_filter (\<lambda>h. invoke H h p) hs\<rparr>"
proof (induction hs arbitrary: s)
  case Nil
  then show ?case by (simp add: List.map_filter_simps)
next
  case (Cons h hs)
  have "foldl (call_handler H p) s (h # hs) = foldl (call_handler H p) (call_handler H p s h) hs"
    by simp
  also have "\<dots> = (call_handler H p s h)\<lparr>
      calls := calls (call_handler H p s h) @ map (\<lambda>h. (h, p)) hs,
      console := console (call_handler H p s h) @ List.map_filter (\<lambda>h. invoke H h p) hs\<rparr>"
    by (rule Cons.IH)
  also have "\<dots> = s\<lparr>calls := calls s @ map (\<lambda>h. (h, p)) (h # hs),
                       console := console s @ List.map_filter (\<lambda>h. invoke H h p) (h # hs)\<rparr>"
    unfolding call_handler_closed by (simp add: List.map_filter_simps split: option.splits)
  finally show ?case .
qed

lemma emit_closed:
  "emit H name p s =
   Inr (s\<lparr>trace := trace s @ [(name, p)],
          calls := calls s @ map (\<lambda>h. (h, p)) (handlers_of s name),
          console := console s @ List.map_filter (\<lambda>h. invoke H h p) (handlers_of s name)\<rparr>)"
  by (simp add: emit_returns foldl_call_handler_closed handlers_of_def)

subsection \<open>\<open>seek\<close>\<close>

lemma seek_no_duration:
  "audio_ref s \<Longrightarrow> \<not> isFinite (a_duration (element s)) \<Longrightarrow> seek H v s = Inr s"
  by (simp add: seek_def)

text \<open>
  The target of a seek as the method computes it from the converted argument:
  \<open>Math.max(0, Math.min(duration, seconds))\<close>.
\<close>

definition seek_target :: "jsnum \<Rightarrow> player \<Rightarrow> jsnum" where
  "seek_target sec s = Math_max (Fin 0) (Math_min (a_duration (element s)) sec)"

lemma seek_throws:
  "audio_ref s \<Longrightarrow> isFinite (a_duration (element s)) \<Longrightarrow> to_number H v = Inl e \<Longrightarrow>
   seek H v s = Inl e"
  by (simp add: seek_def thn_simps)

lemma seek_same_position:
  "audio_ref s \<Longrightarrow> isFinite (a_duration (element s)) \<Longrightarrow> to_number H v = Inr sec \<Longrightarrow>
   js_eq (a_currentTime (element s)) (seek_target sec s) \<Longrightarrow> seek H v s = Inr s"
  by (simp add: seek_def seek_target_def thn_simps)

lemma seek_moves:
  assumes "audio_ref s" and "dom_ref s" and "isFinite (a_duration (element s))"
    and "to_number H v = Inr sec"
    and "\<not> js_eq (a_currentTime (element s)) (seek_target sec s)"
  shows "\<exists>s'. seek H v s = Inr s' \<and>
              a_currentTime (element s') = seek_target sec s \<and>
              trace s' = trace s @ [(JStr ''seek'',
                                    PSeek (a_currentTime (element s)) (seek_target sec s))] \<and>
              calls s' = calls s @ map (\<lambda>h. (h, PSeek (a_currentTime (element s)) (seek_target sec s)))
                                     (handlers_of s (JStr ''seek''))"
  using assms
  by (simp add: seek_def seek_target_def [symmetric] Let_def thn_def set_audio_def set_dom_def
        syncProgress_def emit_closed handlers_of_def)

lemma seek_target_in_range:
  assumes "a_duration (element s) = Fin d" and "0 \<le> d" and "sec \<noteq> NaN"
  shows "in_range (Fin 0) (Fin d) (seek_target sec s)"
  using assms
  by (cases sec) (auto simp: seek_target_def Math_min_def Math_max_def in_range_def)

lemma seek_target_NaN: "seek_target NaN s = NaN"
  by (simp add: seek_target_def Math_min_def Math_max_def)

text \<open>
  Claim C5 on the code. For a target that converts to a number other than \<open>NaN\<close> the method
  does what the claim says (\<open>seek_no_duration\<close>, \<open>seek_same_position\<close>, \<open>seek_moves\<close>,
  \<open>seek_target_in_range\<close>), and a target whose conversion throws makes \<open>seek\<close> throw before
  anything is written (\<open>seek_throws\<close>). A target that converts to \<open>NaN\<close> (\<open>seek(NaN)\<close>,
  \<open>seek(undefined)\<close>) is not clamped: \<open>Math.min\<close> and \<open>Math.max\<close> return \<open>NaN\<close>, \<open>from === to\<close>
  is false, and the method writes \<open>NaN\<close> to the position and emits \<open>seek\<close> with \<open>to = NaN\<close>.
  \<open>seekBy\<close> and \<open>clampNumber\<close> test their argument with \<open>Number.isFinite\<close>; \<open>seek\<close> does not.
  (The record stores the \<open>NaN\<close>; the media element of a browser refuses such an assignment
  with a \<open>TypeError\<close>. Either way the target is not clamped and the call is not a no-op.)
\<close>

theorem C5_seek_NaN:
  "\<exists>s'. seek sample_host (JNum NaN) sample_player = Inr s' \<and>
        a_currentTime (element s') = NaN \<and>
        trace s' = [(JStr ''seek'', PSeek (Fin 0) NaN)]"
proof -
  have "\<exists>s'. seek sample_host (JNum NaN) sample_player = Inr s' \<and>
              a_currentTime (element s') = seek_target NaN sample_player \<and>
              trace s' = trace sample_player @ [(JStr ''seek'',
                            PSeek (a_currentTime (element sample_player))
                                  (seek_target NaN sample_player))] \<and>
              calls s' = calls sample_player @
                         map (\<lambda>h. (h, PSeek (a_currentTime (element sample_player))
                                           (seek_target NaN sample_player)))
                                     (handlers_of sample_player (JStr ''seek''))"
  proof (rule seek_moves)
    show "audio_ref sample_player" by (simp add: sample_player_def)
    show "dom_ref sample_player" by (simp add: sample_player_def)
    show "isFinite (a_duration (element sample_player))"
      by (simp add: sample_player_def sample_media_def)
    show "to_number sample_host (JNum NaN) = Inr NaN" by simp
    show "\<not> js_eq (a_currentTime (element sample_player)) (seek_target NaN sample_player)"
      unfolding seek_target_NaN by (simp add: js_eq_def)
  qed
  thus ?thesis unfolding seek_target_NaN by (auto simp: sample_player_def sample_media_def)
qed

subsection \<open>\<open>load\<close>\<close>


lemma load_noop:
  "\<not> to_boolean v \<or> \<not> is_string v \<Longrightarrow> load H v m prev s = Inr s"
  by (auto simp: load_def)

lemma read_meta_ok: "m \<noteq> JNull \<Longrightarrow> \<exists>mr. read_meta m = Inr mr"
  by (simp add: read_meta_def Let_def)

lemma load_needs_dom:
  "audio_ref s \<Longrightarrow> \<not> dom_ref s \<Longrightarrow> to_boolean v \<Longrightarrow> is_string v \<Longrightarrow>
   load H v m prev s = Inl TypeError"
  by (simp add: load_def Let_def thn_def set_audio_def set_dom_def updatePlayState_def)

lemma load_needs_meta:
  "audio_ref s \<Longrightarrow> dom_ref s \<Longrightarrow> to_boolean v \<Longrightarrow> is_string v \<Longrightarrow> read_meta m = Inl e \<Longrightarrow>
   load H v m prev s = Inl e"
  by (simp add: load_def Let_def thn_def set_audio_def set_dom_def updatePlayState_def)

text \<open>\<open>load(source, null)\<close> throws at \<open>meta.title\<close>, before the source is stored.\<close>

lemma load_null_meta:
  "audio_ref s \<Longrightarrow> dom_ref s \<Longrightarrow> t \<noteq> [] \<Longrightarrow> load H (JStr t) JNull prev s = Inl TypeError"
  by (rule load_needs_meta) (simp_all add: read_meta_def)

text \<open>
  \<open>load\<close> on a live player. The source it compares with is the argument \<open>previousSrc\<close> when
  there is one (\<open>setOptions\<close> passes the source of the options record), and otherwise the
  property \<open>src\<close> of the media element: the address its attribute resolves to.
\<close>

lemma load_live:
  assumes "audio_ref s" and "dom_ref s" and "t \<noteq> []" and "read_meta m = Inr mr"
  shows "\<exists>s'. load H (JStr t) m prev s = Inr s' \<and>
              src (opts s') = t \<and> a_src (element s') = t \<and>
              audio_ref s' \<and> dom_ref s' \<and> events s' = events s \<and>
              opts s' = (opts s)\<lparr>src := t\<rparr> \<and>
              trace s' = trace s @
                (if JStr t \<noteq> (if prev = JNull \<or> prev = JUndefined
                               then JStr (audio_src H (element s)) else prev)
                 then [(JStr ''srcchange'', PSrc t)] else []) \<and>
              calls s' = calls s @
                (if JStr t \<noteq> (if prev = JNull \<or> prev = JUndefined
                               then JStr (audio_src H (element s)) else prev)
                 then map (\<lambda>h. (h, PSrc t)) (handlers_of s (JStr ''srcchange'')) else [])"
  using assms
  by (simp add: load_def Let_def thn_def set_audio_def set_dom_def updatePlayState_def
        updateRateUI_def updateVolumeUI_def updateTitle_def syncDownloadState_def
        stopProgressLoop_def emit_closed audio_pause_def audio_load_def string_or_empty_def
        handlers_of_def)

text \<open>
  A \<open>load\<close> of the source the media element already holds: \<open>srcchange\<close> is emitted again
  unless the source is its own resolved address.
\<close>

lemma load_same_source:
  assumes "audio_ref s" and "dom_ref s" and "t \<noteq> []" and "read_meta m = Inr mr"
    and "a_src (element s) = t"
  shows "\<exists>s'. load H (JStr t) m JNull s = Inr s' \<and>
              trace s' = trace s @
                (if t \<noteq> resolve_url H t then [(JStr ''srcchange'', PSrc t)] else [])"
proof -
  have "audio_src H (element s) = resolve_url H t"
    using assms(3) assms(5) by (simp add: audio_src_def)
  with load_live [OF assms(1-4), of H JNull] show ?thesis by auto
qed

text \<open>
  When the caller passes the preceding source, as \<open>setOptions\<close> does, the comparison is the
  one of two strings.
\<close>

lemma load_previous_given:
  assumes "audio_ref s" and "dom_ref s" and "t \<noteq> []" and "read_meta m = Inr mr"
  shows "\<exists>s'. load H (JStr t) m (JStr prev) s = Inr s' \<and>
              trace s' = trace s @ (if t \<noteq> prev then [(JStr ''srcchange'', PSrc t)] else [])"
  using load_live [OF assms, of H "JStr prev"] by auto

lemma sample_dom_ref: "dom_ref sample_player"
  by (simp add: sample_player_def)

lemma sample_resolve_b: "resolve_url sample_host ''b.mp3'' = ''http://localhost/b.mp3''"
  by (simp add: sample_host_def)

text \<open>
  Claim C4 on the code. The document is at \<open>http://localhost/\<close> and the player holds the
  source \<open>a.mp3\<close>. \<open>load("b.mp3")\<close> stores the source in the options record and in the media
  element and emits \<open>srcchange\<close>. A second \<open>load("b.mp3")\<close> emits \<open>srcchange\<close> again: the
  source it compares with is read from the property \<open>src\<close> of the media element, which is
  \<open>http://localhost/b.mp3\<close>, not the string \<open>b.mp3\<close> that the first call stored. The claim
  says that the second call emits nothing. \<open>_applyOptions\<close> reads the attribute
  (\<open>getAttribute("src")\<close>) for its comparison, and \<open>setOptions\<close> passes the stored source to
  \<open>load\<close>; only a direct call of \<open>load\<close> compares with the resolved address.
\<close>

theorem C4_load_same_source_twice:
  "\<exists>s' s''. load sample_host (JStr ''b.mp3'') (JObj []) JNull sample_player = Inr s' \<and>
            src (opts s') = ''b.mp3'' \<and> a_src (element s') = ''b.mp3'' \<and>
            audio_src sample_host (element s') = ''http://localhost/b.mp3'' \<and>
            trace s' = [(JStr ''srcchange'', PSrc ''b.mp3'')] \<and>
            load sample_host (JStr ''b.mp3'') (JObj []) JNull s' = Inr s'' \<and>
            trace s'' = [(JStr ''srcchange'', PSrc ''b.mp3''),
                         (JStr ''srcchange'', PSrc ''b.mp3'')]"
proof -
  obtain mr where mr: "read_meta (JObj []) = Inr mr" by (simp add: read_meta_def Let_def)
  have ne: "''b.mp3'' \<noteq> []" by simp
  have src0: "audio_src sample_host (element sample_player) = ''http://localhost/a.mp3''"
    "trace sample_player = []"
    by (simp_all add: audio_src_def sample_player_def sample_media_def sample_host_def)
  from load_live [OF sample_audio_ref sample_dom_ref ne mr, of sample_host JNull]
  obtain s' where
    s': "load sample_host (JStr ''b.mp3'') (JObj []) JNull sample_player = Inr s'"
        "src (opts s') = ''b.mp3''" "a_src (element s') = ''b.mp3''"
        "audio_ref s'" "dom_ref s'"
        "trace s' = [(JStr ''srcchange'', PSrc ''b.mp3'')]"
    unfolding src0 by auto
  have r: "audio_src sample_host (element s') = ''http://localhost/b.mp3''"
    using s'(3) by (simp add: audio_src_def sample_resolve_b)
  from load_same_source [OF s'(4) s'(5) ne mr s'(3), of sample_host]
  obtain s'' where
    "load sample_host (JStr ''b.mp3'') (JObj []) JNull s' = Inr s''"
    "trace s'' = trace s' @ [(JStr ''srcchange'', PSrc ''b.mp3'')]"
    unfolding sample_resolve_b by auto
  with s' r show ?thesis by auto
qed

subsection \<open>\<open>setOptions\<close> on a live player\<close>


lemma applyOptions_live:
  assumes "audio_ref s" and "dom_ref s"
  shows "\<exists>s'. applyOptions H s = Inr s' \<and> opts s' = opts s \<and>
              audio_ref s' \<and> dom_ref s' \<and> events s' = events s \<and>
              trace s' = trace s \<and> calls s' = calls s"
  using assms
  by (simp add: applyOptions_def Let_def thn_def set_audio_def set_dom_def updateRateOptions_def
        updateRateUI_def updateVolumeUI_def updateTitle_def syncDownloadState_def
        updateSeekLabels_def)

lemma read_meta_empty: "\<exists>mr. read_meta (JObj []) = Inr mr"
  by (simp add: read_meta_def Let_def)

lemma setOptions_default:
  "setOptions H p s = setOptions H (if p = JUndefined then JObj [] else p) s"
  by (simp add: setOptions_def)

lemma setOptions_not_object:
  "p \<noteq> JUndefined \<Longrightarrow> \<not> is_object p \<Longrightarrow> setOptions H p s = Inr (s, opts s)"
  by (simp add: setOptions_def getOptions_def)

lemma setOptions_throws:
  "next_options H (JObj kvs) (opts s) = Inl e \<Longrightarrow> setOptions H (JObj kvs) s = Inl e"
  by (simp add: setOptions_def Let_def thn_simps)

lemma applyOptions_needs_live:
  "\<not> (audio_ref s \<and> dom_ref s) \<Longrightarrow> applyOptions H s = Inl TypeError"
  by (auto simp: applyOptions_def thn_def updateRateOptions_def set_dom_def set_audio_def)

lemma setOptions_live:
  assumes "audio_ref s" and "dom_ref s" and "next_options H (JObj kvs) (opts s) = Inr n"
  shows "\<exists>s'. setOptions H (JObj kvs) s = Inr (s', opts s') \<and>
              opts s' = n \<and>
              audio_ref s' \<and> dom_ref s' \<and> events s' = events s"
proof -
  let ?s1 = "s\<lparr>opts := n\<rparr>"
  have "audio_ref ?s1" "dom_ref ?s1" using assms by simp_all
  from applyOptions_live [OF this, of H] obtain s2 where
    s2: "applyOptions H ?s1 = Inr s2" "opts s2 = opts ?s1" "audio_ref s2" "dom_ref s2"
        "events s2 = events ?s1"
    by blast
  define go where "go = (has_key ''src'' (JObj kvs) \<and> src (opts s2) \<noteq> [])"
  have unfold: "setOptions H (JObj kvs) s =
      thn (if go then load H (JStr (src (opts s2))) (JObj []) (JStr (src (opts s))) s2
           else Inr s2) (\<lambda>s. Inr (s, opts s))"
    using s2(1) assms(3) by (simp add: setOptions_def Let_def thn_simps getOptions_def go_def)
  show ?thesis
  proof (cases go)
    case True
    hence ne: "src (opts s2) \<noteq> []" by (simp add: go_def)
    obtain mr where mr: "read_meta (JObj []) = Inr mr" using read_meta_empty by blast
    from load_live [OF s2(3) s2(4) ne mr, of H "JStr (src (opts s))"]
    obtain s3 where
      s3: "load H (JStr (src (opts s2))) (JObj []) (JStr (src (opts s))) s2 = Inr s3"
          "opts s3 = (opts s2)\<lparr>src := src (opts s2)\<rparr>" "audio_ref s3" "dom_ref s3"
          "events s3 = events s2"
      by blast
    have "setOptions H (JObj kvs) s = Inr (s3, opts s3)"
      unfolding unfold using True s3(1) by (simp add: thn_def)
    thus ?thesis using s3 s2 by simp
  next
    case False
    have "setOptions H (JObj kvs) s = Inr (s2, opts s2)"
      unfolding unfold using False by (simp add: thn_def)
    thus ?thesis using s2 by simp
  qed
qed

text \<open>When \<open>setOptions\<close> with an object returns, the update converted and the player is live.\<close>

lemma setOptions_object_Inr:
  assumes "setOptions H (JObj kvs) s = Inr r"
  obtains n where "next_options H (JObj kvs) (opts s) = Inr n" "audio_ref s" "dom_ref s"
proof -
  obtain n where n: "next_options H (JObj kvs) (opts s) = Inr n"
  proof (cases "next_options H (JObj kvs) (opts s)")
    case (Inl e)
    with assms setOptions_throws [of H kvs s e] show ?thesis by simp
  next
    case (Inr n)
    then show ?thesis by (rule that)
  qed
  have live: "audio_ref s \<and> dom_ref s"
  proof (rule ccontr)
    assume c: "\<not> (audio_ref s \<and> dom_ref s)"
    have "applyOptions H (s\<lparr>opts := n\<rparr>) = Inl TypeError"
      by (rule applyOptions_needs_live) (use c in simp)
    with assms n show False by (simp add: setOptions_def Let_def thn_simps)
  qed
  show ?thesis using that [OF n] live by blast
qed

text \<open>\<open>setOptions()\<close> on a live player applies the options again; after \<open>destroy\<close> it throws.\<close>

lemma next_options_empty: "\<exists>n. next_options H (JObj []) cur = Inr n"
proof -
  have "fields_before_swap H (JObj []) cur = Inr cur"
    by (simp add: fields_before_swap_def upd_volume_def upd_muted_def upd_playbackRate_def
          upd_seekStep_def upd_allowDownload_def upd_playbackRateMin_def upd_playbackRateMax_def
          upd_playbackRateStep_def thn_simps)
  thus ?thesis by (rule next_options_returns)
qed

lemma setOptions_undefined_live:
  assumes "audio_ref s" and "dom_ref s"
  shows "\<exists>s'. setOptions H JUndefined s = Inr (s', opts s') \<and> events s' = events s"
proof -
  obtain n where n: "next_options H (JObj []) (opts s) = Inr n"
    using next_options_empty by blast
  from setOptions_live [OF assms n] show ?thesis
    unfolding setOptions_default [of H JUndefined] by auto
qed

lemma setOptions_undefined_destroyed:
  "\<not> audio_ref s \<Longrightarrow> setOptions H JUndefined s = Inl TypeError"
proof -
  assume a: "\<not> audio_ref s"
  obtain n where n: "next_options H (JObj []) (opts s) = Inr n"
    using next_options_empty by blast
  have "applyOptions H (s\<lparr>opts := n\<rparr>) = Inl TypeError"
    by (rule applyOptions_needs_live) (use a in simp)
  thus ?thesis using n by (simp add: setOptions_def Let_def thn_simps)
qed

section \<open>Examples and the claims on options\<close>

lemma sample_sets_wf: "sets_wf sample_player"
  by (simp add: sets_wf_def handlers_of_def sample_player_def)

theorem C7_on_idempotent_witness:
  "JStr ''play'' \<in> set (map JStr EVENTS) \<and> is_function (JFun 1) \<and> sets_wf sample_player \<and>
   on (JStr ''play'') (JFun 1) (on (JStr ''play'') (JFun 1) sample_player)
     = on (JStr ''play'') (JFun 1) sample_player \<and>
   (\<exists>s'. emit sample_host (JStr ''play'') PNone
            (on (JStr ''play'') (JFun 1) (on (JStr ''play'') (JFun 1) sample_player)) = Inr s' \<and>
         calls s' = [(JFun 1, PNone)])"
proof -
  have e: "JStr ''play'' \<in> set (map JStr EVENTS)" by (simp add: EVENTS_def)
  have f: "is_function (JFun 1)" by simp
  have h0: "handlers_of sample_player (JStr ''play'') = []"
    by (simp add: handlers_of_def sample_player_def)
  have hs: "handlers_of (on (JStr ''play'') (JFun 1) sample_player) (JStr ''play'') = [JFun 1]"
    unfolding handlers_of_on [OF e f] h0 by (simp add: set_add_def)
  have c0: "calls sample_player = []" by (simp add: sample_player_def)
  note c = C7_on_idempotent [of "JStr ''play''" "JFun 1" sample_player sample_host PNone]
  have i: "on (JStr ''play'') (JFun 1) (on (JStr ''play'') (JFun 1) sample_player)
             = on (JStr ''play'') (JFun 1) sample_player"
    using c by blast
  from c e f sample_sets_wf obtain s' where
    s': "emit sample_host (JStr ''play'') PNone
           (on (JStr ''play'') (JFun 1) (on (JStr ''play'') (JFun 1) sample_player)) = Inr s'"
        "calls s' = calls sample_player @
           map (\<lambda>h'. (h', PNone))
             (handlers_of (on (JStr ''play'') (JFun 1) sample_player) (JStr ''play''))"
    by blast
  have "calls s' = [(JFun 1, PNone)]" using s'(2) unfolding hs c0 by simp
  with s'(1) i e f sample_sets_wf show ?thesis by blast
qed

text \<open>The sample player with two handlers for \<open>play\<close>; the first one throws.\<close>

definition two_handlers :: player where
  "two_handlers = on (JStr ''play'') (JFun 1) (on (JStr ''play'') (JFun 0) sample_player)"

lemma handlers_two_handlers: "handlers_of two_handlers (JStr ''play'') = [JFun 0, JFun 1]"
  by (simp add: two_handlers_def on_def handlers_of_def EVENTS_def set_add_def Let_def
        sample_player_def)

lemma calls_two_handlers: "calls two_handlers = [] \<and> console two_handlers = []"
  by (simp add: two_handlers_def on_def EVENTS_def Let_def sample_player_def)

theorem C8_emit_isolates_handlers_witness:
  "\<exists>s'. emit sample_host (JStr ''play'') PNone two_handlers = Inr s' \<and>
        calls s' = [(JFun 0, PNone), (JFun 1, PNone)] \<and>
        console s' = [Thrown (JStr ''boom'')]"
  using C8_emit_isolates_handlers [of sample_host "JStr ''play''" PNone two_handlers]
  by (simp add: handlers_two_handlers calls_two_handlers List.map_filter_simps sample_host_def)

text \<open>
  Claim C1 on the code. Whenever \<open>setOptions\<close> or the constructor returns, the numeric
  fields are in their domains (\<open>next_options_ok\<close>, \<open>constructed_options_ok\<close>), but the theme
  is not checked against \<open>"auto"\<close>, \<open>"light"\<close>, \<open>"dark"\<close>: both \<open>setOptions\<close> and
  \<open>_mergeOptions\<close> keep any non-blank string, trimmed (\<open>theme_wf_next_options\<close>,
  \<open>mergeOptions_theme_wf\<close>). \<open>setOptions({theme: "purple"})\<close> and the merge of
  \<open>{theme: "purple"}\<close> store \<open>"purple"\<close>, where the claim, the comment at
  \<open>DEFAULT_OPTIONS.theme\<close> and \<open>normalizeTheme\<close> of the other copy of the module say \<open>"auto"\<close>.
\<close>

lemma merge_theme_purple:
  "\<exists>m. mergeOptions sample_host DEFAULT_OPTIONS (JObj [(''theme'', JStr ''purple'')]) True
          = Inr m \<and>
       theme m = ''purple''"
  by (simp add: mergeOptions_def Let_def merged_object_def raw_options_def DEFAULT_OPTIONS_def
        clampNumber_num thn_simps fl_fifth fl_twentieth fl_hundredth text_or_def trim_def
        is_space_def)

theorem C1_theme_not_validated:
  "(\<exists>s'. setOptions sample_host (JObj [(''theme'', JStr ''purple'')]) sample_player
            = Inr (s', opts s') \<and>
         theme (opts s') = ''purple'') \<and>
   (\<exists>m. mergeOptions sample_host DEFAULT_OPTIONS (JObj [(''theme'', JStr ''purple'')]) True
           = Inr m \<and>
        theme m = ''purple'')"
proof -
  from theme_purple [of sample_host "opts sample_player"] obtain n where
    n: "next_options sample_host (JObj [(''theme'', JStr ''purple'')]) (opts sample_player)
          = Inr n"
       "theme n = ''purple''"
    by blast
  from setOptions_live [OF sample_audio_ref sample_dom_ref n(1)]
  obtain s' where
    "setOptions sample_host (JObj [(''theme'', JStr ''purple'')]) sample_player = Inr (s', opts s')"
    "opts s' = n"
    by blast
  hence 1: "\<exists>s'. setOptions sample_host (JObj [(''theme'', JStr ''purple'')]) sample_player
            = Inr (s', opts s') \<and> theme (opts s') = ''purple''"
    using n(2) by auto
  show ?thesis using 1 merge_theme_purple by blast
qed

text \<open>
  Two more ways in which the claim does not hold on the code. The merge alone can leave the
  rate outside the bounds it has just stored: a rate that does not convert to a finite
  number is replaced by \<open>1\<close>, whatever the bounds are (the constructor passes the record
  through \<open>setOptions\<close> afterwards, which clamps it: \<open>constructed_options_ok\<close>). And an exception
  is raised when a numeric key holds an object that does not convert to a primitive.
\<close>

lemma merge_rate_outside_bounds:
  "\<exists>m. mergeOptions sample_host DEFAULT_OPTIONS
          (JObj [(''playbackRateMin'', JNum (Fin 3)), (''playbackRateMax'', JNum (Fin 4)),
                 (''playbackRate'', JStr ''fast'')]) True = Inr m \<and>
       playbackRateMin m = Fin 3 \<and> playbackRateMax m = Fin 4 \<and> playbackRate m = Fin 1"
  by (simp add: mergeOptions_def Let_def merged_object_def raw_options_def DEFAULT_OPTIONS_def
        clampNumber_num clampNumber_def thn_simps fl_fifth fl_twentieth fl_hundredth or_else_def
        Math_min_def Math_max_def js_greater_def sample_host_def)

lemma setOptions_conversion_throws:
  "setOptions sample_host
     (JObj [(''volume'', JObj [(''valueOf'', JNum (Fin 1)), (''toString'', JNum (Fin 2))])])
     sample_player = Inl TypeError"
proof -
  have "upd_volume sample_host
          (JObj [(''volume'', JObj [(''valueOf'', JNum (Fin 1)), (''toString'', JNum (Fin 2))])])
          (opts sample_player) = Inl TypeError"
    using to_number_no_conversion [of sample_host]
    by (simp add: upd_volume_def clampNumber_def thn_simps del: to_number.simps)
  hence "next_options sample_host
          (JObj [(''volume'', JObj [(''valueOf'', JNum (Fin 1)), (''toString'', JNum (Fin 2))])])
          (opts sample_player) = Inl TypeError"
    by (simp add: next_options_def fields_before_swap_def thn_simps)
  thus ?thesis by (rule setOptions_throws)
qed

text \<open>
  Claim C2. \<open>setOptions\<close> with an object, on a live player whose numeric options are in their
  domains. When the conversion of a numeric key throws, \<open>setOptions\<close> throws and stores
  nothing. Otherwise, with \<open>pre\<close> the record after the keys of the update are applied: when
  \<open>playbackRateMin\<close> exceeds \<open>playbackRateMax\<close> in \<open>pre\<close>, the stored record has the two
  exchanged; in every case the stored bounds are ordered, and the stored \<open>playbackRate\<close> is
  the rate of \<open>pre\<close> clamped into the stored bounds, so it lies between them.
\<close>

theorem C2_bounds_swapped_rate_reclamped:
  assumes "audio_ref s" and "dom_ref s" and "bounds_ok (opts s)"
  shows "(\<forall>e. fields_before_swap H (JObj kvs) (opts s) = Inl e \<longrightarrow>
            setOptions H (JObj kvs) s = Inl e) \<and>
         (\<forall>pre. fields_before_swap H (JObj kvs) (opts s) = Inr pre \<longrightarrow>
            (\<exists>s'. setOptions H (JObj kvs) s = Inr (s', opts s') \<and>
               (js_greater (playbackRateMin pre) (playbackRateMax pre) \<longrightarrow>
                  playbackRateMin (opts s') = playbackRateMax pre \<and>
                  playbackRateMax (opts s') = playbackRateMin pre) \<and>
               fin_le (playbackRateMin (opts s')) (playbackRateMax (opts s')) \<and>
               clampNumber H (JNum (playbackRate pre))
                   (playbackRateMin (opts s')) (playbackRateMax (opts s'))
                 = Inr (Some (playbackRate (opts s'))) \<and>
               in_range (playbackRateMin (opts s')) (playbackRateMax (opts s'))
                 (playbackRate (opts s'))))"
proof (intro conjI allI impI)
  fix e assume "fields_before_swap H (JObj kvs) (opts s) = Inl e"
  hence "next_options H (JObj kvs) (opts s) = Inl e" by (rule next_options_throws)
  thus "setOptions H (JObj kvs) s = Inl e" by (rule setOptions_throws)
next
  fix pre assume pre: "fields_before_swap H (JObj kvs) (opts s) = Inr pre"
  let ?p = "JObj kvs"
  let ?sw = "swap_bounds pre"
  obtain rc where rc: "reclamp_rate H ?sw = Inr rc" using reclamp_rate_total by blast
  let ?r = "fields_after_swap ?p rc"
  have nx: "next_options H ?p (opts s) = Inr ?r"
    using pre rc by (simp add: next_options_def thn_simps)
  from setOptions_live [OF assms(1) assms(2) nx] obtain s' where
    s': "setOptions H ?p s = Inr (s', opts s')" "opts s' = ?r"
    by blast
  have b1: "bounds_ok pre" using assms(3) pre by (rule bounds_fields_before_swap)
  have b2: "bounds_ok ?sw" using b1 by (rule bounds_swap_bounds)
  have le: "fin_le (playbackRateMin ?sw) (playbackRateMax ?sw)"
    using bounds_finite_min_max [OF b1] by (simp add: swap_bounds_ordered)
  have fin: "isFinite (playbackRate ?sw)" using b2 by (simp add: bounds_ok_def)
  have rate_sw: "playbackRate ?sw = playbackRate pre" by (simp add: swap_bounds_def Let_def)
  have mn: "playbackRateMin ?r = playbackRateMin ?sw"
    and mx: "playbackRateMax ?r = playbackRateMax ?sw"
    and rt: "playbackRate ?r = playbackRate rc"
    using reclamp_rate_bounds [OF rc] by (simp_all add: numeric_fields_after_swap)
  have swap: "js_greater (playbackRateMin pre) (playbackRateMax pre) \<longrightarrow>
                playbackRateMin ?r = playbackRateMax pre \<and> playbackRateMax ?r = playbackRateMin pre"
    unfolding mn mx using swap_bounds_swaps by blast
  have ord: "fin_le (playbackRateMin ?r) (playbackRateMax ?r)" unfolding mn mx by (rule le)
  have cl: "clampNumber H (JNum (playbackRate pre)) (playbackRateMin ?r) (playbackRateMax ?r)
              = Inr (Some (playbackRate ?r))"
    unfolding mn mx rt using reclamp_rate_value [OF fin le rc] by (simp add: rate_sw)
  have rng: "in_range (playbackRateMin ?r) (playbackRateMax ?r) (playbackRate ?r)"
    unfolding mn mx rt using fin le rc by (rule reclamp_rate_in_range)
  show "\<exists>s'. setOptions H (JObj kvs) s = Inr (s', opts s') \<and>
               (js_greater (playbackRateMin pre) (playbackRateMax pre) \<longrightarrow>
                  playbackRateMin (opts s') = playbackRateMax pre \<and>
                  playbackRateMax (opts s') = playbackRateMin pre) \<and>
               fin_le (playbackRateMin (opts s')) (playbackRateMax (opts s')) \<and>
               clampNumber H (JNum (playbackRate pre))
                   (playbackRateMin (opts s')) (playbackRateMax (opts s'))
                 = Inr (Some (playbackRate (opts s'))) \<and>
               in_range (playbackRateMin (opts s')) (playbackRateMax (opts s'))
                 (playbackRate (opts s'))"
    using s' swap ord cl rng by auto
qed

lemma sample_bounds_ok: "bounds_ok (opts sample_player)"
  using DEFAULT_OPTIONS_ok by (simp add: sample_player_def opts_ok_def bounds_ok_def)

lemma sample_pre_swap:
  "fields_before_swap sample_host (JObj [(''playbackRateMin'', JNum (Fin 3))])
     (opts sample_player) = Inr ((opts sample_player)\<lparr>playbackRateMin := Fin 3\<rparr>)"
  by (simp add: fields_before_swap_def upd_playbackRateStep_def upd_playbackRateMax_def
        upd_playbackRateMin_def upd_allowDownload_def upd_seekStep_def upd_playbackRate_def
        upd_muted_def upd_volume_def clampNumber_num thn_simps Math_min_def Math_max_def
        js_eq_def fl_fifth sample_player_def DEFAULT_OPTIONS_def)

theorem C2_bounds_swapped_rate_reclamped_witness:
  "audio_ref sample_player \<and> dom_ref sample_player \<and> bounds_ok (opts sample_player) \<and>
   (\<exists>s'. setOptions sample_host (JObj [(''playbackRateMin'', JNum (Fin 3))]) sample_player
            = Inr (s', opts s') \<and>
         playbackRateMin (opts s') = Fin 2 \<and> playbackRateMax (opts s') = Fin 3 \<and>
         playbackRate (opts s') = Fin 2)"
proof -
  let ?pre = "(opts sample_player)\<lparr>playbackRateMin := Fin 3\<rparr>"
  have pre: "playbackRateMin ?pre = Fin 3" "playbackRateMax ?pre = Fin 2"
    "playbackRate ?pre = Fin 1"
    by (simp_all add: sample_player_def DEFAULT_OPTIONS_def)
  from C2_bounds_swapped_rate_reclamped [OF sample_audio_ref sample_dom_ref sample_bounds_ok,
      of sample_host "[(''playbackRateMin'', JNum (Fin 3))]"] sample_pre_swap
  obtain s' where
    a: "setOptions sample_host (JObj [(''playbackRateMin'', JNum (Fin 3))]) sample_player
          = Inr (s', opts s')"
    and b: "js_greater (playbackRateMin ?pre) (playbackRateMax ?pre) \<longrightarrow>
              playbackRateMin (opts s') = playbackRateMax ?pre \<and>
              playbackRateMax (opts s') = playbackRateMin ?pre"
    and c: "clampNumber sample_host (JNum (playbackRate ?pre)) (playbackRateMin (opts s'))
              (playbackRateMax (opts s')) = Inr (Some (playbackRate (opts s')))"
    by blast
  have b': "playbackRateMin (opts s') = Fin 2 \<and> playbackRateMax (opts s') = Fin 3"
    using b unfolding pre by (simp add: js_greater_def)
  have "playbackRate (opts s') = Fin 2"
    using c b' unfolding pre by (simp add: clampNumber_num Math_min_def Math_max_def)
  thus ?thesis using a b' sample_audio_ref sample_dom_ref sample_bounds_ok by blast
qed

section \<open>Sequences of calls\<close>

text \<open>
  The public methods as values, and a caller as a list of calls. A run ends at the first
  exception that reaches the caller.
\<close>

datatype api_call =
    On jsval jsval
  | Off jsval jsval
  | Emit jsval payload
  | SetOptions jsval
  | Load jsval jsval
  | Play
  | Pause
  | Toggle
  | Seek jsval
  | SeekBy jsval
  | SetPlaybackRate jsval
  | SetVolume jsval
  | Mute
  | Unmute
  | ToggleMute
  | Destroy

fun step :: "host \<Rightarrow> api_call \<Rightarrow> player \<Rightarrow> error + player" where
  "step H (On name handler) s = Inr (on name handler s)"
| "step H (Off name handler) s = Inr (off name handler s)"
| "step H (Emit name p) s = emit H name p s"
| "step H (SetOptions partial) s = thn (setOptions H partial s) (\<lambda>r. Inr (fst r))"
| "step H (Load source metav) s = load H source metav JNull s"
| "step H Play s = play s"
| "step H Pause s = pause s"
| "step H Toggle s = toggle s"
| "step H (Seek seconds) s = seek H seconds s"
| "step H (SeekBy delta) s = seekBy H delta s"
| "step H (SetPlaybackRate rate) s = setPlaybackRate H rate s"
| "step H (SetVolume v) s = setVolume H v s"
| "step H Mute s = mute s"
| "step H Unmute s = unmute s"
| "step H ToggleMute s = toggleMute s"
| "step H Destroy s = Inr (destroy s)"

fun run :: "host \<Rightarrow> api_call list \<Rightarrow> player \<Rightarrow> error + player" where
  "run H [] s = Inr s"
| "run H (c # cs) s = thn (step H c s) (run H cs)"

subsection \<open>Which methods touch the registry\<close>

lemma events_set_audio: "set_audio f s = Inr s' \<Longrightarrow> events s' = events s"
  by (auto simp: set_audio_def split: if_splits)

lemma events_emit: "emit H name p s = Inr s' \<Longrightarrow> events s' = events s"
  by (auto simp: emit_closed)

lemma events_play: "play s = Inr s' \<Longrightarrow> events s' = events s"
  by (auto simp: play_def dest: events_set_audio split: if_splits)

lemma events_pause: "pause s = Inr s' \<Longrightarrow> events s' = events s"
  by (auto simp: pause_def dest: events_set_audio split: if_splits)

lemma events_toggle: "toggle s = Inr s' \<Longrightarrow> events s' = events s"
  by (auto simp: toggle_def dest: events_play events_pause split: if_splits)

lemma events_mute:
  "mute s = Inr s' \<Longrightarrow> events s' = events s"
  "unmute s = Inr s' \<Longrightarrow> events s' = events s"
  "toggleMute s = Inr s' \<Longrightarrow> events s' = events s"
  by (auto simp: mute_def unmute_def toggleMute_def dest: events_set_audio)

lemma frame_set_audio:
  "set_audio f s = Inr s' \<Longrightarrow> events s' = events s \<and> opts s' = opts s"
  by (auto simp: set_audio_def split: if_splits)

lemma frame_set_dom:
  "set_dom f s = Inr s' \<Longrightarrow> events s' = events s \<and> opts s' = opts s"
  by (auto simp: set_dom_def split: if_splits)

lemma frame_emit: "emit H name p s = Inr s' \<Longrightarrow> events s' = events s \<and> opts s' = opts s"
  by (auto simp: emit_closed)

lemma frame_setPlaybackRate:
  assumes "setPlaybackRate H v s = Inr s'"
  shows "events s' = events s \<and> opts s' = opts s"
proof -
  from assms obtain r where
    b: "(case r of None \<Rightarrow> Inr s
         | Some c \<Rightarrow> set_audio (\<lambda>a. a\<lparr>a_playbackRate := c\<rparr>) s) = Inr s'"
    unfolding setPlaybackRate_def thn_Inr by blast
  show ?thesis
  proof (cases r)
    case None
    with b show ?thesis by simp
  next
    case (Some c)
    with b have "set_audio (\<lambda>a. a\<lparr>a_playbackRate := c\<rparr>) s = Inr s'" by simp
    thus ?thesis by (rule frame_set_audio)
  qed
qed

lemma events_setPlaybackRate: "setPlaybackRate H v s = Inr s' \<Longrightarrow> events s' = events s"
  using frame_setPlaybackRate by blast

lemma frame_syncProgress:
  assumes "syncProgress H c s = Inr s'"
  shows "events s' = events s \<and> opts s' = opts s"
proof -
  from assms obtain cur f where "set_dom f s = Inr s'"
    unfolding syncProgress_def thn_Inr by blast
  thus ?thesis by (rule frame_set_dom)
qed

lemma frame_setVolume:
  assumes "setVolume H v s = Inr s'"
  shows "events s' = events s \<and> opts s' = opts s"
proof -
  from assms obtain r where
    b: "(case r of
           None \<Rightarrow> Inr s
         | Some c \<Rightarrow>
             thn (set_audio (\<lambda>a. a\<lparr>a_volume := js_div_const c 100\<rparr>) s) (\<lambda>s.
             if js_greater c (Fin 0) \<and> a_muted (element s)
             then set_audio (\<lambda>a. a\<lparr>a_muted := False\<rparr>) s
             else Inr s)) = Inr s'"
    unfolding setVolume_def thn_Inr by blast
  show ?thesis
  proof (cases r)
    case None
    with b show ?thesis by simp
  next
    case (Some c)
    from b obtain s1 where
      s1: "set_audio (\<lambda>a. a\<lparr>a_volume := js_div_const c 100\<rparr>) s = Inr s1"
      and c: "(if js_greater c (Fin 0) \<and> a_muted (element s1)
               then set_audio (\<lambda>a. a\<lparr>a_muted := False\<rparr>) s1
               else Inr s1) = Inr s'"
      unfolding Some option.case thn_Inr by blast
    have 2: "events s' = events s1 \<and> opts s' = opts s1"
    proof (cases "js_greater c (Fin 0) \<and> a_muted (element s1)")
      case True
      with c have "set_audio (\<lambda>a. a\<lparr>a_muted := False\<rparr>) s1 = Inr s'" by simp
      thus ?thesis by (rule frame_set_audio)
    next
      case False
      with c show ?thesis by simp
    qed
    with frame_set_audio [OF s1] show ?thesis by simp
  qed
qed

lemma frame_seek:
  assumes "seek H v s = Inr s'"
  shows "events s' = events s \<and> opts s' = opts s"
proof (cases "audio_ref s \<and> isFinite (a_duration (element s))")
  case False
  with assms show ?thesis by (auto simp: seek_def split: if_splits)
next
  case True
  obtain sec where sec: "to_number H v = Inr sec"
  proof (cases "to_number H v")
    case (Inl e)
    with assms True seek_throws [of s H v e] show ?thesis by simp
  next
    case (Inr sec)
    then show ?thesis by (rule that)
  qed
  let ?from = "a_currentTime (element s)"
  let ?to = "Math_max (Fin 0) (Math_min (a_duration (element s)) sec)"
  have eq: "seek H v s =
            (if js_eq ?from ?to then Inr s
             else thn (set_audio (\<lambda>a. a\<lparr>a_currentTime := ?to\<rparr>) s) (\<lambda>s.
                  thn (syncProgress H JUndefined s) (\<lambda>s.
                  emit H (JStr ''seek'') (PSeek ?from ?to) s)))"
    using True sec by (simp add: seek_def Let_def thn_simps)
  show ?thesis
  proof (cases "js_eq ?from ?to")
    case True
    with eq assms show ?thesis by simp
  next
    case False
    with eq assms have
      "thn (set_audio (\<lambda>a. a\<lparr>a_currentTime := ?to\<rparr>) s) (\<lambda>s.
         thn (syncProgress H JUndefined s) (\<lambda>s.
         emit H (JStr ''seek'') (PSeek ?from ?to) s)) = Inr s'"
      by simp
    then obtain s1 s2 where
      "set_audio (\<lambda>a. a\<lparr>a_currentTime := ?to\<rparr>) s = Inr s1"
      "syncProgress H JUndefined s1 = Inr s2"
      "emit H (JStr ''seek'') (PSeek ?from ?to) s2 = Inr s'"
      unfolding thn_Inr by blast
    with frame_set_audio [of _ s s1] frame_syncProgress [of H JUndefined s1 s2]
      frame_emit [of H _ _ s2 s']
    show ?thesis by simp
  qed
qed

lemma frame_seekBy:
  assumes "seekBy H v s = Inr s'"
  shows "events s' = events s \<and> opts s' = opts s"
proof -
  from assms obtain delta where
    b: "(if \<not> isFinite delta then Inr s
         else if \<not> audio_ref s then Inl TypeError
         else seek H (JNum (js_add (a_currentTime (element s)) delta)) s) = Inr s'"
    unfolding seekBy_def thn_Inr by blast
  show ?thesis
  proof (cases "isFinite delta")
    case False
    with b show ?thesis by simp
  next
    case True
    with b have "seek H (JNum (js_add (a_currentTime (element s)) delta)) s = Inr s'"
      by (cases "audio_ref s") simp_all
    thus ?thesis by (rule frame_seek)
  qed
qed

lemma events_setVolume: "setVolume H v s = Inr s' \<Longrightarrow> events s' = events s"
  using frame_setVolume by blast

lemma events_seek: "seek H v s = Inr s' \<Longrightarrow> events s' = events s"
  using frame_seek by blast

lemma events_seekBy: "seekBy H v s = Inr s' \<Longrightarrow> events s' = events s"
  using frame_seekBy by blast

lemma events_load:
  assumes "load H v m prev s = Inr s'"
  shows "events s' = events s"
proof (cases "\<not> to_boolean v \<or> \<not> is_string v")
  case True
  with assms show ?thesis by (simp add: load_noop)
next
  case False
  then obtain t where v: "v = JStr t" and t: "t \<noteq> []" by (cases v) auto
  have a: "audio_ref s" using assms False by (auto simp: load_def split: if_splits)
  have d: "dom_ref s" using assms False a load_needs_dom [of s v H m prev] by auto
  obtain mr where mr: "read_meta m = Inr mr"
    using assms False a d load_needs_meta [of s v m _ H prev] by (cases "read_meta m") auto
  from load_live [OF a d t mr, of H prev] assms show ?thesis unfolding v by auto
qed

lemma events_setOptions:
  assumes "setOptions H p s = Inr r"
  shows "events (fst r) = events s"
proof -
  define q where "q = (if p = JUndefined then JObj [] else p)"
  have r: "setOptions H q s = Inr r" using assms setOptions_default [of H p s] by (simp add: q_def)
  have nu: "q \<noteq> JUndefined" by (simp add: q_def)
  show ?thesis
  proof (cases "is_object q")
    case False
    with r nu show ?thesis by (auto simp: setOptions_not_object)
  next
    case True
    then obtain kvs where q: "q = JObj kvs" by (cases q) auto
    from r obtain n where n: "next_options H (JObj kvs) (opts s) = Inr n"
      and live: "audio_ref s" "dom_ref s"
      unfolding q by (rule setOptions_object_Inr)
    from setOptions_live [OF live n] r show ?thesis unfolding q by auto
  qed
qed

lemma events_step:
  assumes "step H c s = Inr s'"
  shows "(\<exists>n h. c = On n h) \<or> (\<exists>n h. c = Off n h) \<or> c = Destroy \<or> events s' = events s"
  using assms
  by (cases c)
     (auto simp: thn_Inr dest: events_emit events_setOptions events_load events_play events_pause
        events_toggle events_seek events_seekBy events_setPlaybackRate events_setVolume
        events_mute)


subsection \<open>Invariants of a run\<close>

lemma registry_ok_cong: "events s' = events s \<Longrightarrow> registry_ok s' = registry_ok s"
  by (simp add: registry_ok_def handlers_of_def)

lemma sets_wf_cong: "events s' = events s \<Longrightarrow> sets_wf s' = sets_wf s"
  by (simp add: sets_wf_def handlers_of_def)

lemma on_noop: "name \<notin> set (map JStr EVENTS) \<or> \<not> is_function handler \<Longrightarrow> on name handler s = s"
  by (auto simp: on_def)

lemma events_on_known:
  "name \<in> set (map JStr EVENTS) \<Longrightarrow> is_function handler \<Longrightarrow>
   events (on name handler s) = (events s)(name \<mapsto> set_add handler (handlers_of s name))"
  by (auto simp: on_def handlers_of_def Let_def split: option.splits)

lemma registry_ok_on: "registry_ok s \<Longrightarrow> registry_ok (on name handler s)"
proof (cases "name \<in> set (map JStr EVENTS) \<and> is_function handler")
  case False
  assume "registry_ok s"
  with False show ?thesis by (simp add: on_noop)
next
  case True
  assume ok: "registry_ok s"
  have old: "(events s n \<noteq> None \<longrightarrow> n \<in> set (map JStr EVENTS)) \<and>
             list_all is_function (handlers_of s n)" for n
    using ok by (simp add: registry_ok_def)
  have add: "list_all is_function (set_add handler (handlers_of s name))"
    using True old [of name] by (simp add: set_add_def)
  have ev: "events (on name handler s) = (events s)(name \<mapsto> set_add handler (handlers_of s name))"
    using True by (simp add: events_on_known)
  have "(events (on name handler s) n \<noteq> None \<longrightarrow> n \<in> set (map JStr EVENTS)) \<and>
        list_all is_function (handlers_of (on name handler s) n)" for n
  proof (cases "n = name")
    case True
    then show ?thesis using add \<open>name \<in> set (map JStr EVENTS) \<and> is_function handler\<close>
      by (simp add: ev handlers_of_def)
  next
    case False
    then show ?thesis using old [of n] by (simp add: ev handlers_of_def)
  qed
  thus ?thesis by (simp add: registry_ok_def)
qed

lemma registry_ok_off: "registry_ok s \<Longrightarrow> registry_ok (off name handler s)"
proof -
  assume ok: "registry_ok s"
  show ?thesis
  proof (cases "events s name")
    case None
    with ok show ?thesis by (simp add: off_def)
  next
    case (Some hs)
    have "list_all is_function (handlers_of s name)" using ok by (simp add: registry_ok_def)
    hence "list_all is_function hs" using Some by (simp add: handlers_of_def)
    hence del: "list_all is_function (set_delete handler hs)"
      by (simp add: set_delete_def list_all_iff)
    have known: "name \<in> set (map JStr EVENTS)" using ok Some by (simp add: registry_ok_def)
    have ev: "events (off name handler s) = (events s)(name \<mapsto> set_delete handler hs)"
      using Some by (simp add: off_def)
    have "(events (off name handler s) n \<noteq> None \<longrightarrow> n \<in> set (map JStr EVENTS)) \<and>
          list_all is_function (handlers_of (off name handler s) n)" for n
    proof (cases "n = name")
      case True
      then show ?thesis using del known by (simp add: ev handlers_of_def)
    next
      case False
      have "(events s n \<noteq> None \<longrightarrow> n \<in> set (map JStr EVENTS)) \<and>
            list_all is_function (handlers_of s n)"
        using ok by (simp add: registry_ok_def)
      then show ?thesis using False by (simp add: ev handlers_of_def)
    qed
    thus ?thesis by (simp add: registry_ok_def)
  qed
qed

lemma sets_wf_off: "sets_wf s \<Longrightarrow> sets_wf (off name handler s)"
proof -
  assume wf: "sets_wf s"
  show ?thesis
  proof (cases "events s name")
    case None
    with wf show ?thesis by (simp add: off_def)
  next
    case (Some hs)
    have "distinct (handlers_of s name)" using wf by (simp add: sets_wf_def)
    hence "distinct hs" using Some by (simp add: handlers_of_def)
    hence del: "distinct (set_delete handler hs)" by (simp add: set_delete_def distinct_removeAll)
    have ev: "events (off name handler s) = (events s)(name \<mapsto> set_delete handler hs)"
      using Some by (simp add: off_def)
    have "distinct (handlers_of (off name handler s) n)" for n
    proof (cases "n = name")
      case True
      then show ?thesis using del by (simp add: ev handlers_of_def)
    next
      case False
      have "distinct (handlers_of s n)" using wf by (simp add: sets_wf_def)
      then show ?thesis using False by (simp add: ev handlers_of_def)
    qed
    thus ?thesis by (simp add: sets_wf_def)
  qed
qed

lemma events_destroy: "events (destroy s) = events s \<or> events (destroy s) = Map.empty"
  by (simp add: destroy_def Let_def stopProgressLoop_def)

lemma registry_ok_empty: "events s = Map.empty \<Longrightarrow> registry_ok s"
  by (simp add: registry_ok_def handlers_of_def)

lemma sets_wf_empty: "events s = Map.empty \<Longrightarrow> sets_wf s"
  by (simp add: sets_wf_def handlers_of_def)

lemma registry_ok_destroy: "registry_ok s \<Longrightarrow> registry_ok (destroy s)"
  using events_destroy [of s] registry_ok_cong [of "destroy s" s] registry_ok_empty [of "destroy s"]
  by blast

lemma sets_wf_destroy: "sets_wf s \<Longrightarrow> sets_wf (destroy s)"
  using events_destroy [of s] sets_wf_cong [of "destroy s" s] sets_wf_empty [of "destroy s"]
  by blast

lemma registry_ok_step:
  assumes "step H c s = Inr s'" and "registry_ok s"
  shows "registry_ok s'"
proof -
  from events_step [OF assms(1)] consider
    (on) n h where "c = On n h" | (off) n h where "c = Off n h" | (destroy) "c = Destroy" |
    (frame) "events s' = events s"
    by blast
  then show ?thesis
  proof cases
    case on
    with assms show ?thesis using registry_ok_on [of s n h] by simp
  next
    case off
    with assms show ?thesis using registry_ok_off [of s n h] by simp
  next
    case destroy
    with assms show ?thesis using registry_ok_destroy [of s] by simp
  next
    case frame
    with assms(2) registry_ok_cong [of s' s] show ?thesis by blast
  qed
qed

lemma sets_wf_step:
  assumes "step H c s = Inr s'" and "sets_wf s"
  shows "sets_wf s'"
proof -
  from events_step [OF assms(1)] consider
    (on) n h where "c = On n h" | (off) n h where "c = Off n h" | (destroy) "c = Destroy" |
    (frame) "events s' = events s"
    by blast
  then show ?thesis
  proof cases
    case on
    with assms show ?thesis using sets_wf_on [of s n h] by simp
  next
    case off
    with assms show ?thesis using sets_wf_off [of s n h] by simp
  next
    case destroy
    with assms show ?thesis using sets_wf_destroy [of s] by simp
  next
    case frame
    with assms(2) sets_wf_cong [of s' s] show ?thesis by blast
  qed
qed

lemma registry_ok_run: "run H cs s = Inr s' \<Longrightarrow> registry_ok s \<Longrightarrow> registry_ok s'"
proof (induction cs arbitrary: s)
  case Nil
  then show ?case by simp
next
  case (Cons c cs)
  from Cons.prems(1) obtain s1 where s1: "step H c s = Inr s1" "run H cs s1 = Inr s'"
    by (auto simp: thn_Inr)
  from registry_ok_step [OF s1(1) Cons.prems(2)] Cons.IH [OF s1(2)] show ?case by blast
qed

lemma sets_wf_run: "run H cs s = Inr s' \<Longrightarrow> sets_wf s \<Longrightarrow> sets_wf s'"
proof (induction cs arbitrary: s)
  case Nil
  then show ?case by simp
next
  case (Cons c cs)
  from Cons.prems(1) obtain s1 where s1: "step H c s = Inr s1" "run H cs s1 = Inr s'"
    by (auto simp: thn_Inr)
  from sets_wf_step [OF s1(1) Cons.prems(2)] Cons.IH [OF s1(2)] show ?case by blast
qed

lemma emit_unknown_name:
  assumes "registry_ok s" and "name \<notin> set (map JStr EVENTS)"
  shows "\<exists>s'. emit H name p s = Inr s' \<and> calls s' = calls s"
proof -
  have "events s name = None" using assms by (auto simp: registry_ok_def)
  thus ?thesis by (simp add: emit_closed handlers_of_def List.map_filter_simps)
qed

text \<open>
  Claim C10. \<open>on(name, handler)\<close> returns the state as it is when \<open>name\<close> is not one of the
  thirteen names of \<open>EVENTS\<close> or \<open>handler\<close> is not a function. So through any sequence of calls
  of the public methods the registry maps names of \<open>EVENTS\<close> only, to functions only; and a
  registration under another name changes no later run, and emitting that name calls nobody.
\<close>

theorem C10_registry_catalogued:
  "(name \<notin> set (map JStr EVENTS) \<or> \<not> is_function handler \<longrightarrow> on name handler s = s) \<and>
   length EVENTS = 13 \<and>
   (registry_ok s \<and> run H cs s = Inr s' \<longrightarrow> registry_ok s') \<and>
   (name \<notin> set (map JStr EVENTS) \<longrightarrow> run H cs (on name handler s) = run H cs s) \<and>
   (registry_ok s \<and> name \<notin> set (map JStr EVENTS) \<longrightarrow>
      (\<exists>s''. emit H name p (on name handler s) = Inr s'' \<and> calls s'' = calls s))"
proof (intro conjI impI)
  assume "name \<notin> set (map JStr EVENTS) \<or> \<not> is_function handler"
  then show "on name handler s = s" by (rule on_noop)
next
  show "length EVENTS = 13" by (simp add: EVENTS_def)
next
  assume a: "registry_ok s \<and> run H cs s = Inr s'"
  then show "registry_ok s'" using registry_ok_run by blast
next
  assume "name \<notin> set (map JStr EVENTS)"
  then show "run H cs (on name handler s) = run H cs s" by (simp add: on_noop)
next
  assume a: "registry_ok s \<and> name \<notin> set (map JStr EVENTS)"
  then show "\<exists>s''. emit H name p (on name handler s) = Inr s'' \<and> calls s'' = calls s"
    using emit_unknown_name [of s name H p] by (simp add: on_noop)
qed


lemma sample_registry_ok: "registry_ok sample_player"
  by (rule registry_ok_empty) (simp add: sample_player_def)

theorem C10_registry_catalogued_witness:
  "registry_ok sample_player \<and> JStr ''bogus'' \<notin> set (map JStr EVENTS) \<and>
   on (JStr ''bogus'') (JFun 1) sample_player = sample_player \<and>
   on (JStr ''play'') (JStr ''x'') sample_player = sample_player \<and>
   (\<exists>s'. run sample_host [On (JStr ''bogus'') (JFun 1), On (JStr ''play'') (JFun 1),
                           Emit (JStr ''play'') PNone] sample_player = Inr s' \<and>
         registry_ok s') \<and>
   (\<exists>s''. emit sample_host (JStr ''bogus'') PNone (on (JStr ''bogus'') (JFun 1) sample_player)
            = Inr s'' \<and>
          calls s'' = calls sample_player)"
proof -
  let ?cs = "[On (JStr ''bogus'') (JFun 1), On (JStr ''play'') (JFun 1), Emit (JStr ''play'') PNone]"
  have unknown: "JStr ''bogus'' \<notin> set (map JStr EVENTS)" by (simp add: EVENTS_def)
  obtain s' where r: "run sample_host ?cs sample_player = Inr s'"
    by (simp add: thn_def emit_closed)
  note c = C10_registry_catalogued [of "JStr ''bogus''" "JFun 1" sample_player sample_host ?cs s'
      PNone]
  have 1: "on (JStr ''bogus'') (JFun 1) sample_player = sample_player" using c unknown by blast
  have 2: "on (JStr ''play'') (JStr ''x'') sample_player = sample_player"
    using C10_registry_catalogued [of "JStr ''play''" "JStr ''x''" sample_player] by simp
  have 3: "registry_ok s'" using c r sample_registry_ok by blast
  have 4: "\<exists>s''. emit sample_host (JStr ''bogus'') PNone
                  (on (JStr ''bogus'') (JFun 1) sample_player) = Inr s'' \<and>
                calls s'' = calls sample_player"
    using c unknown sample_registry_ok by blast
  show ?thesis using 1 2 3 4 r unknown sample_registry_ok by blast
qed

subsection \<open>The options record along a run\<close>

lemma opts_set_audio: "set_audio f s = Inr s' \<Longrightarrow> opts s' = opts s"
  by (auto simp: set_audio_def split: if_splits)

lemma opts_emit: "emit H name p s = Inr s' \<Longrightarrow> opts s' = opts s"
  by (auto simp: emit_closed)

lemma opts_play: "play s = Inr s' \<Longrightarrow> opts s' = opts s"
  by (auto simp: play_def dest: opts_set_audio split: if_splits)

lemma opts_pause: "pause s = Inr s' \<Longrightarrow> opts s' = opts s"
  by (auto simp: pause_def dest: opts_set_audio split: if_splits)

lemma opts_toggle: "toggle s = Inr s' \<Longrightarrow> opts s' = opts s"
  by (auto simp: toggle_def dest: opts_play opts_pause split: if_splits)

lemma opts_mute:
  "mute s = Inr s' \<Longrightarrow> opts s' = opts s"
  "unmute s = Inr s' \<Longrightarrow> opts s' = opts s"
  "toggleMute s = Inr s' \<Longrightarrow> opts s' = opts s"
  by (auto simp: mute_def unmute_def toggleMute_def dest: opts_set_audio)

lemma opts_setPlaybackRate: "setPlaybackRate H v s = Inr s' \<Longrightarrow> opts s' = opts s"
  using frame_setPlaybackRate by blast

lemma opts_setVolume: "setVolume H v s = Inr s' \<Longrightarrow> opts s' = opts s"
  using frame_setVolume by blast

lemma opts_seek: "seek H v s = Inr s' \<Longrightarrow> opts s' = opts s"
  using frame_seek by blast

lemma opts_seekBy: "seekBy H v s = Inr s' \<Longrightarrow> opts s' = opts s"
  using frame_seekBy by blast

lemma opts_on_off_destroy:
  "opts (on n h s) = opts s" "opts (off n h s) = opts s" "opts (destroy s) = opts s"
  by (simp_all add: on_def off_def destroy_def stopProgressLoop_def Let_def split: option.splits)

lemma opts_load:
  assumes "load H v m prev s = Inr s'"
  shows "opts s' = opts s \<or> (\<exists>t. opts s' = (opts s)\<lparr>src := t\<rparr>)"
proof (cases "\<not> to_boolean v \<or> \<not> is_string v")
  case True
  with assms show ?thesis by (simp add: load_noop)
next
  case False
  then obtain t where v: "v = JStr t" and t: "t \<noteq> []" by (cases v) auto
  have a: "audio_ref s" using assms False by (auto simp: load_def split: if_splits)
  have d: "dom_ref s" using assms False a load_needs_dom [of s v H m prev] by auto
  obtain mr where mr: "read_meta m = Inr mr"
    using assms False a d load_needs_meta [of s v m _ H prev] by (cases "read_meta m") auto
  from load_live [OF a d t mr, of H prev] assms show ?thesis unfolding v by auto
qed

lemma opts_setOptions:
  assumes "setOptions H p s = Inr r"
  shows "opts (fst r) = opts s \<or> (\<exists>q. next_options H q (opts s) = Inr (opts (fst r)))"
proof -
  define q where "q = (if p = JUndefined then JObj [] else p)"
  have r: "setOptions H q s = Inr r" using assms setOptions_default [of H p s] by (simp add: q_def)
  have nu: "q \<noteq> JUndefined" by (simp add: q_def)
  show ?thesis
  proof (cases "is_object q")
    case False
    with r nu show ?thesis by (auto simp: setOptions_not_object)
  next
    case True
    then obtain kvs where q: "q = JObj kvs" by (cases q) auto
    from r obtain n where n: "next_options H (JObj kvs) (opts s) = Inr n"
      and live: "audio_ref s" "dom_ref s"
      unfolding q by (rule setOptions_object_Inr)
    from setOptions_live [OF live n] r have "opts (fst r) = n" unfolding q by auto
    with n show ?thesis by blast
  qed
qed

lemma opts_ok_src: "opts_ok (n\<lparr>src := t\<rparr>) = opts_ok n"
  by (simp add: opts_ok_def bounds_ok_def)

lemma theme_wf_src: "theme_wf (n\<lparr>src := t\<rparr>) = theme_wf n"
  by (simp add: theme_wf_def)

lemma opts_step:
  assumes "step H c s = Inr s'"
  shows "opts s' = opts s \<or> (\<exists>t. opts s' = (opts s)\<lparr>src := t\<rparr>) \<or>
         (\<exists>p. next_options H p (opts s) = Inr (opts s'))"
proof (cases c)
  case (SetOptions p)
  with assms obtain r where "setOptions H p s = Inr r" "s' = fst r" by (auto simp: thn_Inr)
  with opts_setOptions [of H p s r] show ?thesis by auto
next
  case (Load v m)
  with assms opts_load [of H v m JNull s s'] show ?thesis by auto
qed (use assms in \<open>auto simp: opts_on_off_destroy dest: opts_emit opts_play opts_pause opts_toggle
       opts_seek opts_seekBy opts_setPlaybackRate opts_setVolume opts_mute\<close>)

lemma options_step:
  assumes "step H c s = Inr s'" and "opts_ok (opts s) \<and> theme_wf (opts s)"
  shows "opts_ok (opts s') \<and> theme_wf (opts s')"
proof -
  from opts_step [OF assms(1)] consider
    (same) "opts s' = opts s" | (src) t where "opts s' = (opts s)\<lparr>src := t\<rparr>" |
    (upd) p where "next_options H p (opts s) = Inr (opts s')"
    by blast
  then show ?thesis
  proof cases
    case same
    with assms(2) show ?thesis by simp
  next
    case src
    with assms(2) show ?thesis by (simp add: opts_ok_src theme_wf_src)
  next
    case upd
    have "bounds_ok (opts s)" using assms(2) by (simp add: opts_ok_def)
    hence "opts_ok (opts s')" using upd by (rule next_options_ok)
    moreover have "theme_wf (opts s')"
      using assms(2) upd theme_wf_next_options [of "opts s" H p "opts s'"] by blast
    ultimately show ?thesis by simp
  qed
qed

lemma options_run:
  "run H cs s = Inr s' \<Longrightarrow> opts_ok (opts s) \<and> theme_wf (opts s) \<Longrightarrow>
   opts_ok (opts s') \<and> theme_wf (opts s')"
proof (induction cs arbitrary: s)
  case Nil
  then show ?case by simp
next
  case (Cons c cs)
  from Cons.prems(1) obtain s1 where s1: "step H c s = Inr s1" "run H cs s1 = Inr s'"
    by (auto simp: thn_Inr)
  from options_step [OF s1(1) Cons.prems(2)] Cons.IH [OF s1(2)] show ?case by blast
qed

section \<open>The four defects against their claims\<close>

text \<open>The theme stored by \<open>setOptions({theme: "purple"})\<close> is none of the three of the claim.\<close>

theorem C1_theme_not_validated_witness:
  "\<exists>s'. setOptions sample_host (JObj [(''theme'', JStr ''purple'')]) sample_player
           = Inr (s', opts s') \<and>
        theme (opts s') \<notin> set [''auto'', ''light'', ''dark'']"
proof -
  from C1_theme_not_validated obtain s' where
    "setOptions sample_host (JObj [(''theme'', JStr ''purple'')]) sample_player = Inr (s', opts s')"
    "theme (opts s') = ''purple''"
    by blast
  thus ?thesis by auto
qed

text \<open>After \<open>destroy()\<close>, \<open>seek(5)\<close> does not return the state: it is not a no-op.\<close>

theorem C3_seek_after_destroy_throws_witness:
  "seek sample_host (JNum (Fin 5)) (destroy sample_player) \<noteq> Inr (destroy sample_player)"
  using C3_seek_after_destroy_throws by simp

text \<open>The second \<open>load\<close> of the same string is not silent: it adds an emission.\<close>

theorem C4_load_same_source_twice_witness:
  "\<exists>s' s''. load sample_host (JStr ''b.mp3'') (JObj []) JNull sample_player = Inr s' \<and>
            load sample_host (JStr ''b.mp3'') (JObj []) JNull s' = Inr s'' \<and>
            trace s'' \<noteq> trace s' \<and> length (trace s'') = Suc (length (trace s'))"
proof -
  from C4_load_same_source_twice obtain s' s'' where
    "load sample_host (JStr ''b.mp3'') (JObj []) JNull sample_player = Inr s'"
    "trace s' = [(JStr ''srcchange'', PSrc ''b.mp3'')]"
    "load sample_host (JStr ''b.mp3'') (JObj []) JNull s' = Inr s''"
    "trace s'' = [(JStr ''srcchange'', PSrc ''b.mp3''), (JStr ''srcchange'', PSrc ''b.mp3'')]"
    by blast
  thus ?thesis by auto
qed

text \<open>The position after \<open>seek(NaN)\<close> on a track of ten seconds is not in \<open>[0, 10]\<close>.\<close>

theorem C5_seek_NaN_witness:
  "a_duration (element sample_player) = Fin 10 \<and>
   (\<exists>s'. seek sample_host (JNum NaN) sample_player = Inr s' \<and>
         \<not> in_range (Fin 0) (Fin 10) (a_currentTime (element s')))"
proof -
  from C5_seek_NaN obtain s' where
    "seek sample_host (JNum NaN) sample_player = Inr s'" "a_currentTime (element s') = NaN"
    by blast
  moreover have "a_duration (element sample_player) = Fin 10"
    by (simp add: sample_player_def sample_media_def)
  ultimately show ?thesis by (auto simp: in_range_def)
qed

section \<open>\<open>load\<close> and \<open>seek\<close> in the second copy of the module\<close>

text \<open>
  In \<open>src/unnamed/part_000\<close>, \<open>load\<close> takes no third argument, does not pause and does not
  push rate and volume again, and \<open>seek\<close> does not refresh the progress display. They touch
  no field the two copies do not share, so they are stated on the same state. \<open>load\<close>
  compares with the property \<open>src\<close> of the media element there too, and \<open>seek\<close> has no
  test for a target that is not a number: what the claims say of the two comes out the same.
\<close>

definition load_part000 :: "host \<Rightarrow> jsval \<Rightarrow> jsval \<Rightarrow> player \<Rightarrow> error + player" where
  "load_part000 H srcv metav s0 =
     (if \<not> to_boolean srcv \<or> \<not> is_string srcv then Inr s0
      else if \<not> audio_ref s0 then Inl TypeError
      else let source = string_or_empty srcv;
               previous = audio_src H (element s0)
           in thn (read_meta metav) (\<lambda>m.
              thn (set_audio (\<lambda>a. audio_load (a\<lparr>a_src := source\<rparr>))
                     (s0\<lparr>meta := m, opts := (opts s0)\<lparr>src := source\<rparr>\<rparr>)) (\<lambda>s.
              thn (updateTitle s) (\<lambda>s.
              thn (syncDownloadState s) (\<lambda>s.
              thn (set_dom (\<lambda>d. d\<lparr>d_currentTime_text := ''0:00'',
                                   d_duration_text := ''0:00'',
                                   d_progressRange_value := ''0'',
                                   d_progressRange_max := ''0''\<rparr>) s) (\<lambda>s.
              if source \<noteq> previous
              then emit H (JStr ''srcchange'') (PSrc source) s
              else Inr s))))))"

definition seek_part000 :: "host \<Rightarrow> jsval \<Rightarrow> player \<Rightarrow> error + player" where
  "seek_part000 H seconds s =
     (if \<not> audio_ref s then Inl TypeError
      else if \<not> isFinite (a_duration (element s)) then Inr s
      else let from = a_currentTime (element s)
           in thn (to_number H seconds) (\<lambda>sec.
              let to = Math_max (Fin 0) (Math_min (a_duration (element s)) sec)
              in if js_eq from to then Inr s
                 else thn (set_audio (\<lambda>a. a\<lparr>a_currentTime := to\<rparr>) s) (\<lambda>s.
                      emit H (JStr ''seek'') (PSeek from to) s)))"

lemma load_part000_noop:
  "\<not> to_boolean v \<or> \<not> is_string v \<Longrightarrow> load_part000 H v m s = Inr s"
  by (auto simp: load_part000_def)

lemma load_part000_live:
  assumes "audio_ref s" and "dom_ref s" and "t \<noteq> []" and "read_meta m = Inr mr"
  shows "\<exists>s'. load_part000 H (JStr t) m s = Inr s' \<and>
              src (opts s') = t \<and> a_src (element s') = t \<and>
              audio_ref s' \<and> dom_ref s' \<and>
              trace s' = trace s @
                (if t \<noteq> audio_src H (element s) then [(JStr ''srcchange'', PSrc t)] else [])"
  using assms
  by (simp add: load_part000_def Let_def thn_def set_audio_def set_dom_def updateTitle_def
        syncDownloadState_def emit_closed audio_load_def string_or_empty_def)

lemma load_part000_same_source_twice:
  "\<exists>s' s''. load_part000 sample_host (JStr ''b.mp3'') (JObj []) sample_player = Inr s' \<and>
            load_part000 sample_host (JStr ''b.mp3'') (JObj []) s' = Inr s'' \<and>
            trace s'' = [(JStr ''srcchange'', PSrc ''b.mp3''),
                         (JStr ''srcchange'', PSrc ''b.mp3'')]"
proof -
  obtain mr where mr: "read_meta (JObj []) = Inr mr" by (simp add: read_meta_def Let_def)
  have ne: "''b.mp3'' \<noteq> []" by simp
  have src0: "audio_src sample_host (element sample_player) = ''http://localhost/a.mp3''"
    "trace sample_player = []"
    by (simp_all add: audio_src_def sample_player_def sample_media_def sample_host_def)
  from load_part000_live [OF sample_audio_ref sample_dom_ref ne mr, of sample_host]
  obtain s' where
    s': "load_part000 sample_host (JStr ''b.mp3'') (JObj []) sample_player = Inr s'"
        "a_src (element s') = ''b.mp3''" "audio_ref s'" "dom_ref s'"
        "trace s' = [(JStr ''srcchange'', PSrc ''b.mp3'')]"
    unfolding src0 by auto
  have r: "audio_src sample_host (element s') = ''http://localhost/b.mp3''"
    using s'(2) by (simp add: audio_src_def sample_resolve_b)
  from load_part000_live [OF s'(3) s'(4) ne mr, of sample_host]
  obtain s'' where
    "load_part000 sample_host (JStr ''b.mp3'') (JObj []) s' = Inr s''"
    "trace s'' = trace s' @ [(JStr ''srcchange'', PSrc ''b.mp3'')]"
    unfolding r by auto
  with s' show ?thesis by auto
qed

lemma seek_part000_noop:
  "audio_ref s \<Longrightarrow> \<not> isFinite (a_duration (element s)) \<Longrightarrow> seek_part000 H v s = Inr s"
  "audio_ref s \<Longrightarrow> isFinite (a_duration (element s)) \<Longrightarrow> to_number H v = Inr sec \<Longrightarrow>
   js_eq (a_currentTime (element s)) (seek_target sec s) \<Longrightarrow> seek_part000 H v s = Inr s"
  by (simp_all add: seek_part000_def seek_target_def thn_simps)

lemma seek_part000_moves:
  assumes "audio_ref s" and "isFinite (a_duration (element s))"
    and "to_number H v = Inr sec"
    and "\<not> js_eq (a_currentTime (element s)) (seek_target sec s)"
  shows "\<exists>s'. seek_part000 H v s = Inr s' \<and>
              a_currentTime (element s') = seek_target sec s \<and>
              trace s' = trace s @ [(JStr ''seek'',
                                    PSeek (a_currentTime (element s)) (seek_target sec s))] \<and>
              calls s' = calls s @ map (\<lambda>h. (h, PSeek (a_currentTime (element s)) (seek_target sec s)))
                                     (handlers_of s (JStr ''seek''))"
  using assms
  by (simp add: seek_part000_def seek_target_def [symmetric] Let_def thn_def set_audio_def
        emit_closed handlers_of_def)

lemma seek_part000_NaN:
  "\<exists>s'. seek_part000 sample_host (JNum NaN) sample_player = Inr s' \<and>
        a_currentTime (element s') = NaN \<and>
        trace s' = [(JStr ''seek'', PSeek (Fin 0) NaN)]"
  by (simp add: seek_part000_def Let_def thn_def set_audio_def emit_closed Math_min_def
        Math_max_def js_eq_def sample_player_def sample_media_def)

end
